theory Spec2Isabelle
  imports Main "HOL-Library.Sublist"
begin

section \<open>JavaScript values\<close>

text \<open>
  Text typed by a user (message content, group names, display names) is a JavaScript
  string: a sequence of UTF-16 code units, modelled as a list of naturals. Identifiers
  (row ids, user ids, conversation ids) are ASCII strings and are modelled as \<open>string\<close>.
  Timestamps are the millisecond values that \<open>new Date(iso).getTime()\<close> reads off the
  ISO strings held in the rows.
\<close>

type_synonym jsstring = "nat list"

definition js :: "string \<Rightarrow> jsstring" where
  "js s = map of_char s"

definition is_white_space :: "nat \<Rightarrow> bool" where
  \<comment> \<open>ECMAScript WhiteSpace and LineTerminator code units, as \<open>String.prototype.trim\<close> strips them.\<close>
  "is_white_space c \<longleftrightarrow>
     c \<in> set [9, 10, 11, 12, 13, 32, 160, 5760, 8232, 8233, 8239, 8287, 12288, 65279]
     \<or> (8192 \<le> c \<and> c \<le> 8202)"

definition trim :: "jsstring \<Rightarrow> jsstring" where
  "trim s = rev (dropWhile is_white_space (rev (dropWhile is_white_space s)))"

fun decimal :: "nat \<Rightarrow> string" where
  "decimal n = (if n < 10 then [char_of (48 + n)]
                else decimal (n div 10) @ [char_of (48 + n mod 10)])"

declare decimal.simps [simp del]

definition or_else :: "jsstring option \<Rightarrow> jsstring option \<Rightarrow> jsstring option" where
  \<comment> \<open>\<open>a || b\<close> on values that are a string, null or undefined: the empty string is falsy.\<close>
  "or_else a b = (case a of None \<Rightarrow> b | Some s \<Rightarrow> if s = [] then b else a)"

text \<open>What a store call resolves to: the \<open>{ data, error }\<close> pair of the client library.\<close>

datatype 'a response = Response (data: "'a option") (error: "jsstring option")

definition respond :: "jsstring option \<Rightarrow> 'a \<Rightarrow> 'a response" where
  \<comment> \<open>A failed call carries the error and no data, a successful one the data only.\<close>
  "respond err d = (case err of None \<Rightarrow> Response (Some d) None | Some e \<Rightarrow> Response None (Some e))"

section \<open>The data store\<close>

record user =
  user_id :: string
  user_email :: "jsstring option"
  user_display_name :: "jsstring option"

record profile_row =
  profile_id :: string
  profile_username :: "jsstring option"
  profile_display_name :: "jsstring option"
  profile_email :: "jsstring option"

record conversation_row =
  conv_id :: string
  conv_name :: "jsstring option"
  conv_is_group :: bool
  conv_updated_at :: int

record participant_row =
  part_conversation_id :: string
  part_user_id :: string
  part_role :: "string option"
  part_last_read_at :: "int option"

record message_row =
  row_id :: string
  row_conversation_id :: string
  row_sender_id :: string
  row_content :: jsstring
  row_created_at :: int
  row_message_type :: string

record store =
  tbl_profiles :: "profile_row list"
  tbl_conversations :: "conversation_row list"
  tbl_participants :: "participant_row list"
  tbl_messages :: "message_row list"

section \<open>The message thread (Chat component)\<close>

record sender_info =
  display_name :: "jsstring option"
  email :: "jsstring option"

record message =
  msg_id :: string
  content :: jsstring
  sender_id :: string
  conversation_id :: "string option"
  created_at :: int
  message_type :: string
  sender :: "sender_info option"

record chat =
  messages :: "message list"
  newMessage :: jsstring
  loading :: bool

text \<open>The effect-local variables of the subscription effect.\<close>

record sync =
  isSubscribed :: bool
  lastMessageCount :: nat

definition init_chat :: chat where
  "init_chat = \<lparr>messages = [], newMessage = [], loading = True\<rparr>"

definition init_sync :: sync where
  "init_sync = \<lparr>isSubscribed = False, lastMessageCount = 0\<rparr>"

definition sender_of :: "store \<Rightarrow> string \<Rightarrow> sender_info option" where
  \<comment> \<open>The embedded resource \<open>sender:profiles(display_name, email)\<close>.\<close>
  "sender_of s uid =
     map_option (\<lambda>p. \<lparr>display_name = profile_display_name p, email = profile_email p\<rparr>)
       (find (\<lambda>p. profile_id p = uid) (tbl_profiles s))"

definition thread_row :: "store \<Rightarrow> message_row \<Rightarrow> message" where
  \<comment> \<open>The columns selected by \<open>loadMessages\<close>; \<open>conversation_id\<close> is not among them.\<close>
  "thread_row s r =
     \<lparr>msg_id = row_id r, content = row_content r, sender_id = row_sender_id r,
      conversation_id = None, created_at = row_created_at r,
      message_type = row_message_type r, sender = sender_of s (row_sender_id r)\<rparr>"

definition select_thread :: "store \<Rightarrow> string \<Rightarrow> message list" where
  \<comment> \<open>\<open>.eq('conversation_id', conversationId).order('created_at', { ascending: true })\<close>\<close>
  "select_thread s cid =
     map (thread_row s)
       (sort_key row_created_at (filter (\<lambda>r. row_conversation_id r = cid) (tbl_messages s)))"

definition select_ids :: "store \<Rightarrow> string \<Rightarrow> string list" where
  \<comment> \<open>\<open>.select('id', ...).eq('conversation_id', conversationId)\<close>\<close>
  "select_ids s cid = map row_id (filter (\<lambda>r. row_conversation_id r = cid) (tbl_messages s))"

definition loadMessages :: "message list response \<Rightarrow> chat \<Rightarrow> chat" where
  \<comment> \<open>\<open>if (!error && data) { setMessages(data); setLoading(false) }\<close>\<close>
  "loadMessages r st =
     (case (error r, data r) of
        (None, Some d) \<Rightarrow> st\<lparr>messages := d, loading := False\<rparr>
      | _ \<Rightarrow> st)"

text \<open>
  A sequence of refresh-loads: each one is answered from the store as it is at that
  moment, or fails with an error.
\<close>

definition refresh :: "string \<Rightarrow> chat \<Rightarrow> jsstring option \<times> store \<Rightarrow> chat" where
  "refresh cid st = (\<lambda>(err, s). loadMessages (respond err (select_thread s cid)) st)"

definition refresh_loads :: "string \<Rightarrow> (jsstring option \<times> store) list \<Rightarrow> chat \<Rightarrow> chat" where
  "refresh_loads cid loads st = foldl (refresh cid) st loads"

definition on_push :: "message list response \<Rightarrow> chat \<times> sync \<Rightarrow> chat \<times> sync" where
  \<comment> \<open>The insert notification of the thread's channel: \<open>if (isSubscribed) await loadMessages()\<close>.\<close>
  "on_push r = (\<lambda>(st, sy). (if isSubscribed sy then loadMessages r st else st, sy))"

definition on_status :: "string \<Rightarrow> sync \<Rightarrow> sync" where
  "on_status status sy =
     (if status = ''SUBSCRIBED'' then sy\<lparr>isSubscribed := True\<rparr>
      else if status = ''CLOSED'' \<or> status = ''CHANNEL_ERROR'' then sy\<lparr>isSubscribed := False\<rparr>
      else sy)"

definition poll_interval_ms :: nat where
  "poll_interval_ms = 3000"

definition pollTick ::
  "string list response \<Rightarrow> message list response \<Rightarrow> chat \<times> sync \<Rightarrow> chat \<times> sync" where
  \<comment> \<open>One firing of the interval timer; the second response is what \<open>loadMessages\<close> is
      answered when the tick calls it.\<close>
  "pollTick counted loaded = (\<lambda>(st, sy).
     let currentCount = (case data counted of Some d \<Rightarrow> length d | None \<Rightarrow> 0);
         st' = (if lastMessageCount sy > 0 \<and> currentCount > lastMessageCount sy
                then loadMessages loaded st else st)
     in (st', sy\<lparr>lastMessageCount := currentCount\<rparr>))"

definition poll_until ::
  "nat \<Rightarrow> string list response \<Rightarrow> message list response \<Rightarrow> chat \<times> sync \<Rightarrow> chat \<times> sync" where
  \<comment> \<open>The thread \<open>t\<close> milliseconds after the effect has run: the timer has fired
      \<open>t div 3000\<close> times, each firing answered alike by the store.\<close>
  "poll_until t counted loaded = (pollTick counted loaded ^^ (t div poll_interval_ms))"

subsection \<open>Optimistic send\<close>

definition temp_id :: "nat \<Rightarrow> string" where
  "temp_id now = ''temp-'' @ decimal now"

definition tempMessage :: "nat \<Rightarrow> int \<Rightarrow> user \<Rightarrow> string \<Rightarrow> jsstring \<Rightarrow> message" where
  "tempMessage now stamp u cid messageText =
     \<lparr>msg_id = temp_id now, content = messageText, sender_id = user_id u,
      conversation_id = Some cid, created_at = stamp, message_type = ''text'',
      sender = Some \<lparr>display_name = or_else (user_display_name u) (user_email u),
                     email = user_email u\<rparr>\<rparr>"

record message_insert =
  ins_conversation_id :: string
  ins_sender_id :: string
  ins_content :: jsstring
  ins_message_type :: string

definition insert_message :: "string \<Rightarrow> int \<Rightarrow> message_insert \<Rightarrow> store \<Rightarrow> store" where
  \<comment> \<open>The store assigns the id and the creation time of the new row.\<close>
  "insert_message new_id t p s =
     s\<lparr>tbl_messages := tbl_messages s @
         [\<lparr>row_id = new_id, row_conversation_id = ins_conversation_id p,
           row_sender_id = ins_sender_id p, row_content = ins_content p,
           row_created_at = t, row_message_type = ins_message_type p\<rparr>]\<rparr>"

datatype effect = Alert jsstring | Select string

definition sendMessage_submit ::
  "nat \<Rightarrow> int \<Rightarrow> user \<Rightarrow> string \<Rightarrow> chat \<Rightarrow> chat \<times> (message \<times> message_insert) option" where
  \<comment> \<open>\<open>sendMessage\<close> up to its await: the early return, or the optimistic append together
      with the temporary message and the row handed to the store.\<close>
  "sendMessage_submit now stamp u cid st =
     (if trim (newMessage st) = [] then (st, None)
      else let messageText = trim (newMessage st);
               tmp = tempMessage now stamp u cid messageText
           in (st\<lparr>messages := messages st @ [tmp], newMessage := []\<rparr>,
               Some (tmp, \<lparr>ins_conversation_id = cid, ins_sender_id = user_id u,
                           ins_content = messageText, ins_message_type = ''text''\<rparr>)))"

definition sendMessage_settle :: "jsstring option \<Rightarrow> message \<Rightarrow> chat \<Rightarrow> chat \<times> effect list" where
  \<comment> \<open>\<open>sendMessage\<close> after its await, on whatever the list has become meanwhile.\<close>
  "sendMessage_settle err tmp st =
     (case err of
        None \<Rightarrow> (st, [])
      | Some e \<Rightarrow> (st\<lparr>messages := filter (\<lambda>msg. msg_id msg \<noteq> msg_id tmp) (messages st)\<rparr>,
                   [Alert (js ''Failed to send message'')]))"

record send_env =
  send_now :: nat
  send_iso :: int
  send_error :: "jsstring option"
  send_row_id :: string
  send_row_time :: int

definition sendMessage :: "send_env \<Rightarrow> user \<Rightarrow> string \<Rightarrow> store \<times> chat \<Rightarrow> store \<times> chat \<times> effect list" where
  \<comment> \<open>A whole call with nothing interleaved between the submit and the store's answer.\<close>
  "sendMessage env u cid = (\<lambda>(s, st).
     case sendMessage_submit (send_now env) (send_iso env) u cid st of
       (st1, None) \<Rightarrow> (s, st1, [])
     | (st1, Some (tmp, p)) \<Rightarrow>
         (let s' = (case send_error env of
                      None \<Rightarrow> insert_message (send_row_id env) (send_row_time env) p s
                    | Some e \<Rightarrow> s);
              (st2, fx) = sendMessage_settle (send_error env) tmp st1
          in (s', st2, fx)))"

section \<open>The conversation list (ConversationList component)\<close>

definition GLOBAL_CONVERSATION_ID :: string where
  "GLOBAL_CONVERSATION_ID = ''00000000-0000-0000-0000-000000000001''"

record conv =
  c_id :: string
  c_name :: "jsstring option"
  is_group :: bool
  updated_at :: int
  displayName :: jsstring
  otherUserId :: "string option"
  participantCount :: nat
  hasUnread :: bool
  lastMessageTime :: int

record clist =
  conversations :: "conv list"
  allUsers :: "profile_row list"
  showNewChatModal :: bool
  showGroupChatModal :: bool
  selectedUsers :: "string list"
  groupName :: jsstring
  list_loading :: bool
  showMenu :: bool

subsection \<open>Queries and writes issued by the component\<close>

definition select_memberships :: "store \<Rightarrow> string \<Rightarrow> (participant_row \<times> conversation_row) list" where
  \<comment> \<open>The user's participant rows with \<open>conversations!inner(id, name, is_group, updated_at)\<close>.\<close>
  "select_memberships s uid =
     List.map_filter
       (\<lambda>p. map_option (Pair p) (find (\<lambda>c. conv_id c = part_conversation_id p) (tbl_conversations s)))
       (filter (\<lambda>p. part_user_id p = uid) (tbl_participants s))"

definition select_roster :: "store \<Rightarrow> string \<Rightarrow> (string \<times> profile_row) list" where
  \<comment> \<open>The conversation's participant rows with \<open>profiles!inner(id, username, display_name, email)\<close>.\<close>
  "select_roster s cid =
     List.map_filter
       (\<lambda>p. map_option (Pair (part_user_id p)) (find (\<lambda>q. profile_id q = part_user_id p) (tbl_profiles s)))
       (filter (\<lambda>p. part_conversation_id p = cid) (tbl_participants s))"

fun latest :: "message_row list \<Rightarrow> message_row option" where
  "latest [] = None"
| "latest (r # rs) =
     (case latest rs of
        None \<Rightarrow> Some r
      | Some r' \<Rightarrow> if row_created_at r < row_created_at r' then Some r' else Some r)"

definition select_last_message :: "store \<Rightarrow> string \<Rightarrow> message_row option" where
  \<comment> \<open>\<open>.order('created_at', { ascending: false }).limit(1).maybeSingle()\<close>: a row of the
      conversation with the greatest \<open>created_at\<close> (of several such rows, the first in
      table order), or null when the conversation has no message.\<close>
  "select_last_message s cid = latest (filter (\<lambda>r. row_conversation_id r = cid) (tbl_messages s))"

definition select_pair_rows :: "store \<Rightarrow> string \<Rightarrow> string \<Rightarrow> (string \<times> bool) list" where
  \<comment> \<open>\<open>.select('conversation_id, conversations!inner(is_group)').or(user_id.eq.A,user_id.eq.B)\<close>\<close>
  "select_pair_rows s a b =
     List.map_filter
       (\<lambda>p. map_option (\<lambda>c. (part_conversation_id p, conv_is_group c))
              (find (\<lambda>c. conv_id c = part_conversation_id p) (tbl_conversations s)))
       (filter (\<lambda>p. part_user_id p = a \<or> part_user_id p = b) (tbl_participants s))"

definition update_last_read :: "int \<Rightarrow> string \<Rightarrow> string \<Rightarrow> store \<Rightarrow> store" where
  \<comment> \<open>\<open>.update({ last_read_at: now }).eq('conversation_id', c).eq('user_id', u)\<close>\<close>
  "update_last_read now cid uid s =
     s\<lparr>tbl_participants :=
         map (\<lambda>p. if part_conversation_id p = cid \<and> part_user_id p = uid
                   then p\<lparr>part_last_read_at := Some now\<rparr> else p)
           (tbl_participants s)\<rparr>"

definition insert_conversation :: "string \<Rightarrow> int \<Rightarrow> bool \<Rightarrow> jsstring option \<Rightarrow> store \<Rightarrow> store" where
  \<comment> \<open>The store assigns the id and the \<open>updated_at\<close> of the new conversation.\<close>
  "insert_conversation new_id t grp nm s =
     s\<lparr>tbl_conversations := tbl_conversations s @
         [\<lparr>conv_id = new_id, conv_name = nm, conv_is_group = grp, conv_updated_at = t\<rparr>]\<rparr>"

definition insert_participants :: "participant_row list \<Rightarrow> store \<Rightarrow> store" where
  "insert_participants rows s = s\<lparr>tbl_participants := tbl_participants s @ rows\<rparr>"

subsection \<open>Loading the list\<close>

definition unread_flag :: "message_row option \<Rightarrow> int option \<Rightarrow> string \<Rightarrow> bool" where
  \<comment> \<open>The block "Determine if there are unread messages" of \<open>loadConversations\<close>.\<close>
  "unread_flag lastMessage lastReadAt uid =
     (case lastMessage of
        None \<Rightarrow> False
      | Some m \<Rightarrow>
          (let lastMessageTime_ms = row_created_at m;
               lastReadTime = (case lastReadAt of Some t \<Rightarrow> t | None \<Rightarrow> 0)
           in row_sender_id m \<noteq> uid \<and> lastMessageTime_ms > lastReadTime))"

definition or_default :: "jsstring option \<Rightarrow> jsstring \<Rightarrow> jsstring" where
  \<comment> \<open>\<open>a || 'literal'\<close>\<close>
  "or_default a d = (case a of None \<Rightarrow> d | Some x \<Rightarrow> if x = [] then d else x)"

definition enrich ::
  "user \<Rightarrow> participant_row \<times> conversation_row \<Rightarrow> (string \<times> profile_row) list response \<Rightarrow>
   message_row option response \<Rightarrow> conv option" where
  \<comment> \<open>The body of \<open>data.map(async (item) => ...)\<close>, given what its two queries resolve to.\<close>
  "enrich u item roster lastMsg =
     (let cv = snd item;
          lastReadAt = part_last_read_at (fst item)
      in if error roster \<noteq> None then None
         else
           let participants = data roster;
               lastMessage = Option.bind (data lastMsg) (\<lambda>x. x);
               n = (case participants of Some ps \<Rightarrow> length ps | None \<Rightarrow> 0);
               hasUnread_v = unread_flag lastMessage lastReadAt (user_id u);
               otherUser = Option.bind participants
                             (find (\<lambda>p. profile_id (snd p) \<noteq> user_id u));
               one_on_one = (\<not> conv_is_group cv \<and> participants \<noteq> None \<and> n = 2)
           in Some
             \<lparr>c_id = conv_id cv, c_name = conv_name cv, is_group = conv_is_group cv,
              updated_at = conv_updated_at cv,
              displayName =
                (if one_on_one
                 then or_default
                        (or_else (Option.bind otherUser (\<lambda>p. profile_display_name (snd p)))
                                 (Option.bind otherUser (\<lambda>p. profile_email (snd p))))
                        (js ''Unknown'')
                 else if conv_id cv = GLOBAL_CONVERSATION_ID
                 then [55356, 57101] @ js '' Global Chat''
                 else or_default (conv_name cv) (js (''Group ('' @ decimal n @ '')''))),
              otherUserId = (if one_on_one then map_option (\<lambda>p. profile_id (snd p)) otherUser
                             else None),
              participantCount = n,
              hasUnread = hasUnread_v,
              lastMessageTime = (case lastMessage of Some m \<Rightarrow> row_created_at m
                                 | None \<Rightarrow> conv_updated_at cv)\<rparr>)"

record load_env =
  load_error :: "jsstring option"
  roster_error :: "string \<Rightarrow> jsstring option"
  last_error :: "string \<Rightarrow> jsstring option"

definition enrich_from :: "load_env \<Rightarrow> store \<Rightarrow> user \<Rightarrow> participant_row \<times> conversation_row \<Rightarrow> conv option" where
  "enrich_from env s u item =
     enrich u item
       (respond (roster_error env (conv_id (snd item))) (select_roster s (conv_id (snd item))))
       (respond (last_error env (conv_id (snd item))) (select_last_message s (conv_id (snd item))))"

definition loadConversations :: "load_env \<Rightarrow> store \<Rightarrow> user \<Rightarrow> clist \<Rightarrow> clist" where
  \<comment> \<open>The sort is the stable descending sort on \<open>lastMessageTime\<close>.\<close>
  "loadConversations env s u st =
     (case load_error env of
        Some e \<Rightarrow> st\<lparr>list_loading := False\<rparr>
      | None \<Rightarrow>
          (let conversationsWithDetails = map (enrich_from env s u) (select_memberships s (user_id u));
               validConversations = List.map_filter (\<lambda>c. c) conversationsWithDetails
           in st\<lparr>conversations := sort_key (\<lambda>c. - lastMessageTime c) validConversations,
                 list_loading := False\<rparr>))"

subsection \<open>Read state and live update\<close>

definition markConversationAsRead ::
  "jsstring option \<Rightarrow> int \<Rightarrow> user \<Rightarrow> string \<Rightarrow> store \<times> clist \<Rightarrow> store \<times> clist" where
  \<comment> \<open>The first argument is the error of the store update, if it fails; the local list is
      the one current when the update has been answered.\<close>
  "markConversationAsRead err now u conversationId = (\<lambda>(s, st).
     if conversationId = [] \<or> user_id u = [] then (s, st)
     else case err of
            Some e \<Rightarrow> (s, st)
          | None \<Rightarrow>
              (update_last_read now conversationId (user_id u) s,
               st\<lparr>conversations :=
                   map (\<lambda>cv. if c_id cv = conversationId then cv\<lparr>hasUnread := False\<rparr> else cv)
                     (conversations st)\<rparr>))"

definition on_message_insert :: "user \<Rightarrow> message_row \<Rightarrow> clist \<Rightarrow> clist" where
  \<comment> \<open>The callback of the list's subscription to inserts into \<open>messages\<close>; there is no
      subscription when the user id is missing.\<close>
  "on_message_insert u new st =
     (if user_id u = [] then st
      else if row_sender_id new \<noteq> user_id u
      then st\<lparr>conversations :=
               map (\<lambda>cv. if c_id cv = row_conversation_id new
                          then cv\<lparr>hasUnread := True, updated_at := row_created_at new\<rparr>
                          else cv)
                 (conversations st)\<rparr>
      else st)"

subsection \<open>Creating conversations\<close>

text \<open>
  \<open>conversationCounts\<close> is a plain object: its own properties in insertion order, read
  through \<open>Object.prototype\<close>. A property holds a number, or the string that \<open>+ 1\<close> makes
  of a value that is not a number.
\<close>

datatype jsvalue = Num nat | Str

definition object_prototype_keys :: "string list" where
  "object_prototype_keys =
     [''constructor'', ''__defineGetter__'', ''__defineSetter__'', ''hasOwnProperty'',
      ''__lookupGetter__'', ''__lookupSetter__'', ''isPrototypeOf'', ''propertyIsEnumerable'',
      ''toString'', ''valueOf'', ''__proto__'', ''toLocaleString'']"

fun bump :: "string \<Rightarrow> (string \<times> jsvalue) list \<Rightarrow> (string \<times> jsvalue) list" where
  \<comment> \<open>\<open>counts[k] = (counts[k] || 0) + 1\<close>. A key the object does not own is read from the
      prototype: an inherited function plus 1 is a string, stored as an own property;
      \<open>__proto__\<close> reads as an object and the assignment of a string to it does nothing.\<close>
  "bump k [] =
     (if k = ''__proto__'' then []
      else if k \<in> set object_prototype_keys then [(k, Str)]
      else [(k, Num 1)])"
| "bump k ((k', v) # kvs) =
     (if k = k' then (k', case v of Num n \<Rightarrow> Num (n + 1) | Str \<Rightarrow> Str) # kvs
      else (k', v) # bump k kvs)"

definition count_rows :: "(string \<times> bool) list \<Rightarrow> (string \<times> jsvalue) list" where
  "count_rows rows = foldl (\<lambda>acc (cid, grp). if \<not> grp then bump cid acc else acc) [] rows"

definition parse_digits :: "string \<Rightarrow> nat" where
  "parse_digits k = foldl (\<lambda>a c. 10 * a + (of_char c - 48)) 0 k"

definition is_array_index :: "string \<Rightarrow> bool" where
  \<comment> \<open>A property key that is the canonical decimal form of an integer below \<open>2^32 - 1\<close>.\<close>
  "is_array_index k \<longleftrightarrow>
     k \<noteq> [] \<and> (\<forall>c \<in> set k. 48 \<le> (of_char c :: nat) \<and> (of_char c :: nat) \<le> 57)
     \<and> (k = ''0'' \<or> hd k \<noteq> CHR ''0'') \<and> parse_digits k < 2 ^ 32 - 1"

definition object_keys :: "(string \<times> jsvalue) list \<Rightarrow> string list" where
  \<comment> \<open>\<open>Object.keys\<close>: integer keys in ascending order, then the other keys in insertion order.\<close>
  "object_keys kvs =
     sort_key parse_digits (filter is_array_index (map fst kvs))
     @ filter (\<lambda>k. \<not> is_array_index k) (map fst kvs)"

definition find_existing :: "(string \<times> bool) list \<Rightarrow> string option" where
  "find_existing rows =
     (let conversationCounts = count_rows rows
      in find (\<lambda>convId. map_of conversationCounts convId = Some (Num 2))
           (object_keys conversationCounts))"

record create_env =
  env_now :: int
  lookup_error :: "jsstring option"
  conv_error :: "jsstring option"
  new_conv_id :: string
  parts_error :: "jsstring option"
  mark_error :: "jsstring option"
  reload_env :: load_env

definition handleSelectConversation ::
  "create_env \<Rightarrow> user \<Rightarrow> string \<Rightarrow> store \<times> clist \<Rightarrow> store \<times> clist \<times> effect list" where
  "handleSelectConversation env u conversationId = (\<lambda>(s, st).
     let (s', st') = markConversationAsRead (mark_error env) (env_now env) u conversationId (s, st)
     in (s', st', [Select conversationId]))"

definition startDirectChat ::
  "create_env \<Rightarrow> user \<Rightarrow> string \<Rightarrow> store \<times> clist \<Rightarrow> store \<times> clist \<times> effect list" where
  \<comment> \<open>Store calls are answered in the order they are issued: the read-state update of the
      selection before the reload of the list. An empty string found as the key is falsy,
      as in \<open>if (existingConvId)\<close>.\<close>
  "startDirectChat env u other = (\<lambda>(s, st).
     let existingParticipants =
           data (respond (lookup_error env) (select_pair_rows s (user_id u) other));
         existingConvId =
           (case existingParticipants of
              None \<Rightarrow> None
            | Some rows \<Rightarrow> if length rows > 0 then find_existing rows else None)
     in case (if existingConvId = Some [] then None else existingConvId) of
          Some found \<Rightarrow>
            (let (s', st', fx) = handleSelectConversation env u found (s, st)
             in (s', st'\<lparr>showNewChatModal := False\<rparr>, fx))
        | None \<Rightarrow>
          (case conv_error env of
             Some e \<Rightarrow>
               (s, st, [Alert (js ''Failed to start conversation: '' @ or_default (Some e) (js ''Unknown error''))])
           | None \<Rightarrow>
               (let s1 = insert_conversation (new_conv_id env) (env_now env) False None s
                in case parts_error env of
                     Some e \<Rightarrow>
                       (s1, st, [Alert (js ''Failed to start conversation: '' @ or_default (Some e) (js ''Unknown error''))])
                   | None \<Rightarrow>
                       (let s2 = insert_participants
                                   [\<lparr>part_conversation_id = new_conv_id env, part_user_id = user_id u,
                                     part_role = None, part_last_read_at = Some (env_now env)\<rparr>,
                                    \<lparr>part_conversation_id = new_conv_id env, part_user_id = other,
                                     part_role = None, part_last_read_at = Some (env_now env)\<rparr>] s1;
                            (s3, st3, fx) = handleSelectConversation env u (new_conv_id env) (s2, st);
                            st4 = loadConversations (reload_env env) s3 u st3
                        in (s3, st4\<lparr>showNewChatModal := False\<rparr>, fx)))))"

definition createGroupChat ::
  "create_env \<Rightarrow> user \<Rightarrow> store \<times> clist \<Rightarrow> store \<times> clist \<times> effect list" where
  "createGroupChat env u = (\<lambda>(s, st).
     if length (selectedUsers st) < 2
     then (s, st, [Alert (js ''Please select at least 2 users for a group chat'')])
     else if trim (groupName st) = []
     then (s, st, [Alert (js ''Please enter a group name'')])
     else
       (case conv_error env of
          Some e \<Rightarrow> (s, st, [Alert (js ''Failed to create group chat'')])
        | None \<Rightarrow>
            (let s1 = insert_conversation (new_conv_id env) (env_now env) True
                        (Some (trim (groupName st))) s
             in case parts_error env of
                  Some e \<Rightarrow> (s1, st, [Alert (js ''Failed to create group chat'')])
                | None \<Rightarrow>
                    (let participantsToAdd =
                           \<lparr>part_conversation_id = new_conv_id env, part_user_id = user_id u,
                            part_role = Some ''admin'', part_last_read_at = Some (env_now env)\<rparr>
                           # map (\<lambda>userId.
                                    \<lparr>part_conversation_id = new_conv_id env, part_user_id = userId,
                                     part_role = Some ''member'',
                                     part_last_read_at = Some (env_now env)\<rparr>)
                               (selectedUsers st);
                         s2 = insert_participants participantsToAdd s1;
                         (s3, st3, fx) = handleSelectConversation env u (new_conv_id env) (s2, st);
                         st4 = loadConversations (reload_env env) s3 u st3
                     in (s3, st4\<lparr>showGroupChatModal := False, selectedUsers := [], groupName := []\<rparr>,
                         fx)))))"

section \<open>Properties stated over the model\<close>

definition thread_ok :: "chat \<Rightarrow> bool" where
  \<comment> \<open>The invariant of the displayed list: ascending by \<open>created_at\<close>, no id twice.\<close>
  "thread_ok st \<longleftrightarrow> sorted (map created_at (messages st)) \<and> distinct (map msg_id (messages st))"

definition spec_hasUnread :: "store \<Rightarrow> string \<Rightarrow> string \<Rightarrow> int \<Rightarrow> bool" where
  \<comment> \<open>The unread flag as the specification derives it: some message of the conversation
      is from another user and was created after \<open>lastReadAt\<close>.\<close>
  "spec_hasUnread s cid uid lastReadAt \<longleftrightarrow>
     (\<exists>m \<in> set (tbl_messages s).
        row_conversation_id m = cid \<and> row_sender_id m \<noteq> uid \<and> row_created_at m > lastReadAt)"

section \<open>Example data\<close>

definition ex_user :: user where
  "ex_user = \<lparr>user_id = ''u1'', user_email = Some (js ''a@x.io''), user_display_name = None\<rparr>"

definition ex_row :: "string \<Rightarrow> string \<Rightarrow> string \<Rightarrow> jsstring \<Rightarrow> int \<Rightarrow> message_row" where
  "ex_row i c u txt t =
     \<lparr>row_id = i, row_conversation_id = c, row_sender_id = u, row_content = txt,
      row_created_at = t, row_message_type = ''text''\<rparr>"

definition ex_store :: "message_row list \<Rightarrow> store" where
  "ex_store ms = \<lparr>tbl_profiles = [], tbl_conversations = [], tbl_participants = [], tbl_messages = ms\<rparr>"

definition ex_profile :: "string \<Rightarrow> profile_row" where
  "ex_profile i = \<lparr>profile_id = i, profile_username = None, profile_display_name = None,
                   profile_email = Some (js (i @ ''@x.io''))\<rparr>"

definition ex_member :: "string \<Rightarrow> string \<Rightarrow> int option \<Rightarrow> participant_row" where
  "ex_member c i t = \<lparr>part_conversation_id = c, part_user_id = i, part_role = None,
                      part_last_read_at = t\<rparr>"

definition ex_direct :: "string \<Rightarrow> int \<Rightarrow> conversation_row" where
  "ex_direct c t = \<lparr>conv_id = c, conv_name = None, conv_is_group = False, conv_updated_at = t\<rparr>"

definition ex_world :: "int option \<Rightarrow> message_row list \<Rightarrow> store" where
  "ex_world t ms =
     \<lparr>tbl_profiles = [ex_profile ''u1'', ex_profile ''u2''],
      tbl_conversations = [ex_direct ''c1'' 0],
      tbl_participants = [ex_member ''c1'' ''u1'' t, ex_member ''c1'' ''u2'' None],
      tbl_messages = ms\<rparr>"

definition ex_ok :: load_env where
  "ex_ok = \<lparr>load_error = None, roster_error = (\<lambda>c. None), last_error = (\<lambda>c. None)\<rparr>"

definition ex_clist :: "conv list \<Rightarrow> clist" where
  "ex_clist cs = \<lparr>conversations = cs, allUsers = [], showNewChatModal = False,
                  showGroupChatModal = False, selectedUsers = [], groupName = [],
                  list_loading = True, showMenu = False\<rparr>"

definition ex_conv :: "string \<Rightarrow> bool \<Rightarrow> int \<Rightarrow> conv" where
  "ex_conv c unread t =
     \<lparr>c_id = c, c_name = None, is_group = False, updated_at = 0, displayName = js ''u2@x.io'',
      otherUserId = Some ''u2'', participantCount = 2, hasUnread = unread, lastMessageTime = t\<rparr>"

definition ex_create :: "string \<Rightarrow> jsstring option \<Rightarrow> create_env" where
  "ex_create n err =
     \<lparr>env_now = 50, lookup_error = None, conv_error = None, new_conv_id = n,
      parts_error = None, mark_error = err, reload_env = ex_ok\<rparr>"

definition ex_send :: "jsstring option \<Rightarrow> send_env" where
  "ex_send err = \<lparr>send_now = 7, send_iso = 7, send_error = err, send_row_id = ''m2'',
                  send_row_time = 8\<rparr>"

definition ex_chat :: "message list \<Rightarrow> jsstring \<Rightarrow> chat" where
  "ex_chat ms t = \<lparr>messages = ms, newMessage = t, loading = False\<rparr>"

section \<open>Verification\<close>

lemma dropWhile_all_iff: "(\<forall>x \<in> set (dropWhile P xs). P x) \<longleftrightarrow> (\<forall>x \<in> set xs. P x)"
proof
  assume a: "\<forall>x \<in> set (dropWhile P xs). P x"
  have "dropWhile P xs = []"
  proof (rule ccontr)
    assume n: "dropWhile P xs \<noteq> []"
    then have "\<not> P (hd (dropWhile P xs))" by (rule hd_dropWhile)
    moreover from n have "hd (dropWhile P xs) \<in> set (dropWhile P xs)" by simp
    ultimately show False using a by blast
  qed
  then show "\<forall>x \<in> set xs. P x" by (simp add: dropWhile_eq_Nil_conv)
next
  assume "\<forall>x \<in> set xs. P x"
  then show "\<forall>x \<in> set (dropWhile P xs). P x" by (meson set_dropWhileD)
qed

lemma trim_empty_iff: "trim s = [] \<longleftrightarrow> (\<forall>c \<in> set s. is_white_space c)"
  by (simp add: trim_def dropWhile_eq_Nil_conv dropWhile_all_iff)

lemma created_at_select_thread:
  "map created_at (select_thread s cid) =
   map row_created_at (sort_key row_created_at (filter (\<lambda>r. row_conversation_id r = cid) (tbl_messages s)))"
  by (simp add: select_thread_def thread_row_def comp_def)

lemma msg_id_select_thread:
  "map msg_id (select_thread s cid) =
   map row_id (sort_key row_created_at (filter (\<lambda>r. row_conversation_id r = cid) (tbl_messages s)))"
  by (simp add: select_thread_def thread_row_def comp_def)

lemma content_select_thread:
  "map content (select_thread s cid) =
   map row_content (sort_key row_created_at (filter (\<lambda>r. row_conversation_id r = cid) (tbl_messages s)))"
  by (simp add: select_thread_def thread_row_def comp_def)

lemma select_thread_sorted: "sorted (map created_at (select_thread s cid))"
  by (simp add: created_at_select_thread)

lemma distinct_map_sort_key:
  "distinct (map f (sort_key k xs)) = distinct (map f xs)"
  by (simp add: distinct_map)

lemma select_thread_distinct:
  assumes "distinct (map row_id (tbl_messages s))"
  shows "distinct (map msg_id (select_thread s cid))"
  using assms by (simp add: msg_id_select_thread distinct_map_sort_key distinct_map_filter)

lemma refresh_thread_ok:
  assumes "thread_ok st" "distinct (map row_id (tbl_messages s))"
  shows "thread_ok (refresh cid st (err, s))"
  using assms
  by (cases err) (simp_all add: refresh_def respond_def loadMessages_def thread_ok_def
      select_thread_sorted select_thread_distinct)

lemma refresh_loads_thread_ok:
  assumes "thread_ok st" "\<forall>(err, s) \<in> set loads. distinct (map row_id (tbl_messages s))"
  shows "thread_ok (refresh_loads cid loads st)"
  using assms unfolding refresh_loads_def
proof (induction loads arbitrary: st)
  case Nil
  then show ?case by simp
next
  case (Cons l loads)
  obtain err s where l: "l = (err, s)" by (cases l)
  with Cons.prems have "thread_ok (refresh cid st l)"
    by (simp add: refresh_thread_ok)
  with Cons show ?case by simp
qed

lemma loadMessages_idem: "loadMessages r (loadMessages r st) = loadMessages r st"
  by (simp add: loadMessages_def split: option.splits)

lemma refresh_loads_snoc:
  "refresh_loads cid (loads @ [(None, s)]) st =
     (refresh_loads cid loads st)\<lparr>messages := select_thread s cid, loading := False\<rparr>"
  by (simp add: refresh_loads_def refresh_def respond_def loadMessages_def)

text \<open>
  Claim C6. After any sequence of refresh-loads applied to a thread that has just been
  mounted, each load answered from a store whose message ids are unique or failing with an
  error, the displayed list is sorted ascending by \<open>created_at\<close> and holds no id twice.
  A successful load replaces the whole list by the store's ascending snapshot, whatever
  the list was before, and applying the same load a second time changes nothing.
\<close>

theorem refresh_loads_sorted_distinct:
  assumes "\<forall>(err, s) \<in> set loads. distinct (map row_id (tbl_messages s))"
  shows "sorted (map created_at (messages (refresh_loads cid loads init_chat)))
       \<and> distinct (map msg_id (messages (refresh_loads cid loads init_chat)))
       \<and> messages (refresh_loads cid (loads @ [(None, s)]) st) = select_thread s cid
       \<and> refresh cid (refresh cid st l) l = refresh cid st l"
proof -
  have "thread_ok init_chat" by (simp add: thread_ok_def init_chat_def)
  then have "thread_ok (refresh_loads cid loads init_chat)"
    using assms by (rule refresh_loads_thread_ok)
  moreover have "refresh cid (refresh cid st l) l = refresh cid st l"
    by (cases l) (simp add: refresh_def loadMessages_idem)
  ultimately show ?thesis by (simp add: thread_ok_def refresh_loads_snoc)
qed

text \<open>
  Claim C10. Submitting the form while the input is empty or holds white space only is
  a no-op: \<open>sendMessage\<close> returns before its await with the component state
  unchanged (the list and the input included) and nothing to insert, and the whole call
  leaves the store and the state as they were and raises no alert.
\<close>

theorem sendMessage_blank_noop:
  assumes "\<forall>c \<in> set (newMessage st). is_white_space c"
  shows "sendMessage_submit now stamp u cid st = (st, None)
       \<and> sendMessage env u cid (s, st) = (s, st, [])"
  using assms by (simp add: sendMessage_def sendMessage_submit_def trim_empty_iff)

text \<open>
  What one tick does: it refreshes when its count exceeds the count of the previous
  tick and that count was greater than zero, otherwise it only records its count.
\<close>

lemma pollTick_refresh_guard:
  assumes "data counted = Some ids"
  shows "(0 < lastMessageCount sy \<and> lastMessageCount sy < length ids \<longrightarrow>
            pollTick counted (respond None (select_thread s cid)) (st, sy) =
              (st\<lparr>messages := select_thread s cid, loading := False\<rparr>,
               sy\<lparr>lastMessageCount := length ids\<rparr>))
       \<and> (lastMessageCount sy = 0 \<or> length ids \<le> lastMessageCount sy \<longrightarrow>
            pollTick counted loaded (st, sy) = (st, sy\<lparr>lastMessageCount := length ids\<rparr>))"
  using assms by (auto simp: pollTick_def respond_def loadMessages_def Let_def)

lemma length_filter_select_thread:
  "length (filter P (select_thread s cid)) =
   length (filter (\<lambda>r. P (thread_row s r)) (filter (\<lambda>r. row_conversation_id r = cid) (tbl_messages s)))"
  by (simp add: select_thread_def filter_map filter_sort comp_def)

lemma thread_row_insert_message: "thread_row (insert_message i t p s) = thread_row s"
  by (rule ext) (simp add: thread_row_def insert_message_def sender_of_def)

lemma temp_id_prefix: "prefix ''temp-'' (temp_id now)"
  by (simp add: temp_id_def)

lemma set_msg_id_select_thread:
  "set (map msg_id (select_thread s cid)) \<subseteq> set (map row_id (tbl_messages s))"
  by (auto simp: msg_id_select_thread)

text \<open>
  Claim C2. For a send of non-blank text, with no persisted id carrying the temporary
  prefix and the store assigning an unused id: after the insert has succeeded and the
  list has been refreshed from the store, the temporary id is absent from the list and
  exactly one message stems from the send: it carries the id of the inserted row and the
  sent content, so the messages with that content are one more than the conversation
  held before. After a failed insert the store is unchanged and no message with the
  temporary id remains: the list is the one current at that moment without the entries
  of that id.
\<close>

theorem optimistic_send_outcomes:
  assumes typed: "trim (newMessage st) \<noteq> []"
    and persisted: "\<forall>r \<in> set (tbl_messages s). \<not> prefix ''temp-'' (row_id r)"
    and assigned: "\<not> prefix ''temp-'' new_id" "new_id \<notin> set (map row_id (tbl_messages s))"
  shows "let text = trim (newMessage st);
             tmp = tempMessage now stamp u cid text;
             p = \<lparr>ins_conversation_id = cid, ins_sender_id = user_id u,
                  ins_content = text, ins_message_type = ''text''\<rparr>;
             final = refresh cid (fst (sendMessage_settle None tmp mid))
                      (None, insert_message new_id t p s);
             failed = fst (sendMessage_settle (Some e) tmp mid)
         in sendMessage_submit now stamp u cid st =
              (st\<lparr>messages := messages st @ [tmp], newMessage := []\<rparr>, Some (tmp, p))
          \<and> msg_id tmp \<notin> set (map msg_id (messages final))
          \<and> length (filter (\<lambda>m. msg_id m = new_id) (messages final)) = 1
          \<and> length (filter (\<lambda>m. content m = text) (messages final)) =
              Suc (length (filter (\<lambda>m. content m = text) (select_thread s cid)))
          \<and> msg_id tmp \<notin> set (map msg_id (messages failed))
          \<and> messages failed = filter (\<lambda>m. msg_id m \<noteq> msg_id tmp) (messages mid)
          \<and> fst (sendMessage (env\<lparr>send_error := Some e\<rparr>) u cid (s, st)) = s
          \<and> map content (filter (\<lambda>m. msg_id m = new_id) (messages final)) = [text]"
proof -
  define body where "body = trim (newMessage st)"
  define tmp where "tmp = tempMessage now stamp u cid body"
  define p where "p = \<lparr>ins_conversation_id = cid, ins_sender_id = user_id u,
                  ins_content = body, ins_message_type = ''text''\<rparr>"
  define s' where "s' = insert_message new_id t p s"
  define final where "final = refresh cid (fst (sendMessage_settle None tmp mid)) (None, s')"
  define failed where "failed = fst (sendMessage_settle (Some e) tmp mid)"
  have tmp_id: "msg_id tmp = temp_id now"
    by (simp add: tmp_def tempMessage_def)
  have final_msgs: "messages final = select_thread s' cid"
    by (simp add: final_def refresh_def respond_def loadMessages_def)
  have rows: "tbl_messages s' = tbl_messages s @
      [\<lparr>row_id = new_id, row_conversation_id = cid, row_sender_id = user_id u,
        row_content = body, row_created_at = t, row_message_type = ''text''\<rparr>]"
    by (simp add: s'_def insert_message_def p_def)
  have tr: "thread_row s' = thread_row s"
    by (simp add: s'_def thread_row_insert_message)
  have a: "sendMessage_submit now stamp u cid st =
              (st\<lparr>messages := messages st @ [tmp], newMessage := []\<rparr>, Some (tmp, p))"
    using typed by (simp add: sendMessage_submit_def Let_def tmp_def p_def body_def)
  have "\<forall>i \<in> set (map row_id (tbl_messages s')). \<not> prefix ''temp-'' i"
    using persisted assigned(1) by (auto simp: rows)
  then have "\<forall>i \<in> set (map msg_id (select_thread s' cid)). \<not> prefix ''temp-'' i"
    using set_msg_id_select_thread [of s' cid] by blast
  then have b: "msg_id tmp \<notin> set (map msg_id (messages final))"
    using temp_id_prefix [of now] by (auto simp: final_msgs tmp_id)
  have old: "\<forall>r \<in> set (tbl_messages s). row_id r \<noteq> new_id"
    using assigned(2) by auto
  have c: "length (filter (\<lambda>m. msg_id m = new_id) (messages final)) = 1"
    using old by (simp add: final_msgs length_filter_select_thread tr rows thread_row_def
        filter_empty_conv)
  have d: "length (filter (\<lambda>m. content m = body) (messages final)) =
              Suc (length (filter (\<lambda>m. content m = body) (select_thread s cid)))"
    by (simp add: final_msgs length_filter_select_thread tr rows)
       (simp add: thread_row_def)
  have f: "messages failed = filter (\<lambda>m. msg_id m \<noteq> msg_id tmp) (messages mid)"
    by (simp add: failed_def sendMessage_settle_def)
  then have g: "msg_id tmp \<notin> set (map msg_id (messages failed))"
    by auto
  have h: "fst (sendMessage (env\<lparr>send_error := Some e\<rparr>) u cid (s, st)) = s"
    using typed by (simp add: sendMessage_def sendMessage_submit_def sendMessage_settle_def Let_def)
  have one: "map content (filter (\<lambda>m. msg_id m = new_id) (messages final)) = [body]"
    using old by (simp add: final_msgs select_thread_def filter_map filter_sort comp_def tr rows
        thread_row_def filter_empty_conv)
  from a b c d f g h one show ?thesis
    unfolding Let_def body_def [symmetric] tmp_def [symmetric] p_def [symmetric]
      s'_def [symmetric] final_def [symmetric] failed_def [symmetric]
    by blast
qed

text \<open>
  Claim C1 as stated fails: with an unread message of another user at time 5, the user's
  own message at time 10 and \<open>lastReadAt = 1\<close>, the derivation of the specification
  holds, and the loaded conversation is not flagged.
\<close>

theorem unread_exists_counterexample:
  "map hasUnread (conversations (loadConversations ex_ok
      (ex_world (Some 1) [ex_row ''m1'' ''c1'' ''u2'' (js ''hi'') 5,
                          ex_row ''m2'' ''c1'' ''u1'' (js ''yo'') 10]) ex_user (ex_clist []))) = [False]
   \<and> spec_hasUnread (ex_world (Some 1) [ex_row ''m1'' ''c1'' ''u2'' (js ''hi'') 5,
                          ex_row ''m2'' ''c1'' ''u1'' (js ''yo'') 10]) ''c1'' ''u1'' 1"
  by code_simp

lemma latest_Some:
  "latest rs = Some m \<Longrightarrow> m \<in> set rs \<and> (\<forall>r \<in> set rs. row_created_at r \<le> row_created_at m)"
proof (induction rs arbitrary: m)
  case Nil
  then show ?case by simp
next
  case (Cons r rs)
  show ?case
  proof (cases "latest rs")
    case None
    with Cons.prems have "m = r" by simp
    moreover from None have "rs = []" by (cases rs) (auto split: option.splits if_splits)
    ultimately show ?thesis by simp
  next
    case (Some r')
    with Cons.IH have ih: "r' \<in> set rs" "\<forall>x \<in> set rs. row_created_at x \<le> row_created_at r'"
      by auto
    show ?thesis
    proof (cases "row_created_at r < row_created_at r'")
      case True
      with Some Cons.prems have "m = r'" by simp
      with ih True show ?thesis by auto
    next
      case False
      with Some Cons.prems have "m = r" by simp
      with ih False show ?thesis by fastforce
    qed
  qed
qed

lemma select_last_message_Some:
  assumes "select_last_message s cid = Some m"
  shows "m \<in> set (tbl_messages s)" "row_conversation_id m = cid"
    "\<forall>r \<in> set (tbl_messages s). row_conversation_id r = cid \<longrightarrow> row_created_at r \<le> row_created_at m"
  using latest_Some [OF assms [unfolded select_last_message_def]] by auto

lemma enrich_from_Some:
  assumes "enrich_from env s u item = Some cv"
  shows "c_id cv = conv_id (snd item)"
    "hasUnread cv =
       unread_flag (Option.bind (data (respond (last_error env (conv_id (snd item)))
                       (select_last_message s (conv_id (snd item))))) (\<lambda>x. x))
         (part_last_read_at (fst item)) (user_id u)"
  using assms by (auto simp: enrich_from_def enrich_def Let_def split: if_splits)

lemma loaded_from_membership:
  assumes "load_error env = None" "cv \<in> set (conversations (loadConversations env s u st))"
  shows "\<exists>item \<in> set (select_memberships s (user_id u)). enrich_from env s u item = Some cv"
  using assms by (auto simp: loadConversations_def Let_def List.map_filter_def)

text \<open>
  Claim C1, amended. Every conversation of the loaded list comes from one of the user's
  participant rows, and its \<open>hasUnread\<close> is true exactly when the query for the most
  recent message succeeded and returned a message whose sender is not the user and whose
  \<open>created_at\<close> is greater than the \<open>lastReadAt\<close> of that row (0 when null). That message
  is one of the conversation with the greatest \<open>created_at\<close>. A flagged conversation
  satisfies the derivation of the specification; the converse is not claimed.
\<close>

theorem loadConversations_unread_latest:
  assumes "load_error env = None"
    and "cv \<in> set (conversations (loadConversations env s u st))"
  shows "\<exists>item \<in> set (select_memberships s (user_id u)).
           conv_id (snd item) = c_id cv
         \<and> (hasUnread cv \<longleftrightarrow>
              last_error env (c_id cv) = None
            \<and> (\<exists>m. select_last_message s (c_id cv) = Some m
                   \<and> row_sender_id m \<noteq> user_id u
                   \<and> (case part_last_read_at (fst item) of Some t \<Rightarrow> t | None \<Rightarrow> 0)
                       < row_created_at m))
         \<and> (\<forall>m. select_last_message s (c_id cv) = Some m \<longrightarrow>
                row_conversation_id m = c_id cv
              \<and> (\<forall>r \<in> set (tbl_messages s).
                    row_conversation_id r = c_id cv \<longrightarrow> row_created_at r \<le> row_created_at m))
         \<and> (hasUnread cv \<longrightarrow>
              spec_hasUnread s (c_id cv) (user_id u)
                (case part_last_read_at (fst item) of Some t \<Rightarrow> t | None \<Rightarrow> 0))"
proof -
  from loaded_from_membership [OF assms] obtain item
    where item: "item \<in> set (select_memberships s (user_id u))"
      and en: "enrich_from env s u item = Some cv" by blast
  note e = enrich_from_Some [OF en]
  let ?t = "case part_last_read_at (fst item) of Some t \<Rightarrow> t | None \<Rightarrow> 0"
  have flag: "hasUnread cv \<longleftrightarrow>
              last_error env (c_id cv) = None
            \<and> (\<exists>m. select_last_message s (c_id cv) = Some m
                   \<and> row_sender_id m \<noteq> user_id u \<and> ?t < row_created_at m)"
    by (cases "last_error env (c_id cv)"; cases "select_last_message s (c_id cv)")
       (simp_all add: e unread_flag_def respond_def Let_def)
  have top: "\<forall>m. select_last_message s (c_id cv) = Some m \<longrightarrow>
                row_conversation_id m = c_id cv
              \<and> (\<forall>r \<in> set (tbl_messages s).
                    row_conversation_id r = c_id cv \<longrightarrow> row_created_at r \<le> row_created_at m)"
    using select_last_message_Some by blast
  have sp: "hasUnread cv \<longrightarrow> spec_hasUnread s (c_id cv) (user_id u) ?t"
  proof
    assume "hasUnread cv"
    with flag obtain m where m: "select_last_message s (c_id cv) = Some m"
      "row_sender_id m \<noteq> user_id u" "?t < row_created_at m" by blast
    from select_last_message_Some(1,2) [OF m(1)] m(2,3)
    show "spec_hasUnread s (c_id cv) (user_id u) ?t"
      unfolding spec_hasUnread_def by blast
  qed
  have "conv_id (snd item) = c_id cv
         \<and> (hasUnread cv \<longleftrightarrow>
              last_error env (c_id cv) = None
            \<and> (\<exists>m. select_last_message s (c_id cv) = Some m
                   \<and> row_sender_id m \<noteq> user_id u \<and> ?t < row_created_at m))
         \<and> (\<forall>m. select_last_message s (c_id cv) = Some m \<longrightarrow>
                row_conversation_id m = c_id cv
              \<and> (\<forall>r \<in> set (tbl_messages s).
                    row_conversation_id r = c_id cv \<longrightarrow> row_created_at r \<le> row_created_at m))
         \<and> (hasUnread cv \<longrightarrow> spec_hasUnread s (c_id cv) (user_id u) ?t)"
    using e(1) flag top sp by (intro conjI) simp_all
  with item show ?thesis by (rule rev_bexI)
qed

text \<open>
  The amended property of C1 on a conversation whose only message is another user's.
\<close>

theorem loadConversations_unread_latest_witness:
  "load_error ex_ok = None
   \<and> ex_conv ''c1'' True 5 \<in> set (conversations (loadConversations ex_ok
        (ex_world (Some 1) [ex_row ''m1'' ''c1'' ''u2'' (js ''hi'') 5]) ex_user (ex_clist [])))
   \<and> spec_hasUnread (ex_world (Some 1) [ex_row ''m1'' ''c1'' ''u2'' (js ''hi'') 5]) ''c1'' ''u1'' 1"
proof -
  let ?s = "ex_world (Some 1) [ex_row ''m1'' ''c1'' ''u2'' (js ''hi'') 5]"
  have h1: "load_error ex_ok = None" by (simp add: ex_ok_def)
  have h2: "ex_conv ''c1'' True 5 \<in> set (conversations (loadConversations ex_ok ?s ex_user (ex_clist [])))"
    by code_simp
  have m: "select_memberships ?s (user_id ex_user) = [(ex_member ''c1'' ''u1'' (Some 1), ex_direct ''c1'' 0)]"
    by code_simp
  have u: "hasUnread (ex_conv ''c1'' True 5)" "c_id (ex_conv ''c1'' True 5) = ''c1''"
    "user_id ex_user = ''u1''"
    by (simp_all add: ex_conv_def ex_user_def)
  from loadConversations_unread_latest [OF h1 h2] obtain item
    where item: "item \<in> set (select_memberships ?s (user_id ex_user))"
      and imp: "hasUnread (ex_conv ''c1'' True 5) \<longrightarrow>
          spec_hasUnread ?s (c_id (ex_conv ''c1'' True 5)) (user_id ex_user)
            (case part_last_read_at (fst item) of Some t \<Rightarrow> t | None \<Rightarrow> 0)"
    by blast
  from item have "item = (ex_member ''c1'' ''u1'' (Some 1), ex_direct ''c1'' 0)"
    by (simp add: m)
  with imp have "spec_hasUnread ?s ''c1'' ''u1'' 1"
    by (simp add: u ex_member_def)
  with h1 h2 show ?thesis by blast
qed

lemma read_map_flags:
  "\<forall>cv \<in> set (map (\<lambda>cv. if c_id cv = x then cv\<lparr>hasUnread := False\<rparr> else cv) xs).
     c_id cv = x \<longrightarrow> \<not> hasUnread cv"
proof (intro ballI impI)
  fix cv
  assume "cv \<in> set (map (\<lambda>cv. if c_id cv = x then cv\<lparr>hasUnread := False\<rparr> else cv) xs)"
    and x: "c_id cv = x"
  then obtain y where y: "cv = (if c_id y = x then y\<lparr>hasUnread := False\<rparr> else y)"
    by (auto simp only: set_map image_iff)
  show "\<not> hasUnread cv"
  proof (cases "c_id y = x")
    case True
    with y show ?thesis by simp
  next
    case False
    with y x show ?thesis by simp
  qed
qed

lemma patch_map_flags:
  "\<forall>cv \<in> set (map (\<lambda>cv. if c_id cv = x then cv\<lparr>hasUnread := True, updated_at := t\<rparr> else cv) xs).
     c_id cv = x \<longrightarrow> hasUnread cv \<and> updated_at cv = t"
proof (intro ballI impI)
  fix cv
  assume "cv \<in> set (map (\<lambda>cv. if c_id cv = x then cv\<lparr>hasUnread := True, updated_at := t\<rparr> else cv) xs)"
    and x: "c_id cv = x"
  then obtain y where y: "cv = (if c_id y = x then y\<lparr>hasUnread := True, updated_at := t\<rparr> else y)"
    by (auto simp only: set_map image_iff)
  show "hasUnread cv \<and> updated_at cv = t"
  proof (cases "c_id y = x")
    case True
    with y show ?thesis by simp
  next
    case False
    with y x show ?thesis by simp
  qed
qed


text \<open>
  Claim C4, amended. For a non-empty conversation id and user id, \<open>markConversationAsRead\<close>
  sets the local \<open>hasUnread\<close> of that conversation to false, and writes \<open>last_read_at\<close>,
  when the store update has succeeded; when the update fails, the store and the local
  state are left unchanged.
\<close>

theorem markConversationAsRead_outcome:
  assumes "conversationId \<noteq> []" and "user_id u \<noteq> []"
  shows "markConversationAsRead (Some e) now u conversationId (s, st) = (s, st)
       \<and> markConversationAsRead None now u conversationId (s, st) =
           (update_last_read now conversationId (user_id u) s,
            st\<lparr>conversations :=
                map (\<lambda>cv. if c_id cv = conversationId then cv\<lparr>hasUnread := False\<rparr> else cv)
                  (conversations st)\<rparr>)
       \<and> (\<forall>cv \<in> set (conversations (snd (markConversationAsRead None now u conversationId (s, st)))).
            c_id cv = conversationId \<longrightarrow> \<not> hasUnread cv)"
proof -
  have ok: "markConversationAsRead None now u conversationId (s, st) =
           (update_last_read now conversationId (user_id u) s,
            st\<lparr>conversations :=
                map (\<lambda>cv. if c_id cv = conversationId then cv\<lparr>hasUnread := False\<rparr> else cv)
                  (conversations st)\<rparr>)"
    using assms by (simp add: markConversationAsRead_def)
  have failed: "markConversationAsRead (Some e) now u conversationId (s, st) = (s, st)"
    using assms by (simp add: markConversationAsRead_def)
  have cs: "conversations (snd (markConversationAsRead None now u conversationId (s, st))) =
          map (\<lambda>cv. if c_id cv = conversationId then cv\<lparr>hasUnread := False\<rparr> else cv)
            (conversations st)"
    by (simp add: ok)
  have "\<forall>cv \<in> set (conversations (snd (markConversationAsRead None now u conversationId (s, st)))).
            c_id cv = conversationId \<longrightarrow> \<not> hasUnread cv"
    unfolding cs by (rule read_map_flags)
  with ok failed show ?thesis by (intro conjI)
qed

text \<open>
  Claim C5, amended. For an insert event whose sender is not the current user, the
  handler maps over the current list without any store call: every conversation with the
  event's conversation id gets \<open>hasUnread = true\<close> and \<open>updated_at\<close> set to the message's
  \<open>created_at\<close>; the order of the list and the \<open>lastMessageTime\<close> of every entry stay
  as they were.
\<close>

theorem on_message_insert_patch:
  assumes "user_id u \<noteq> []" and "row_sender_id new \<noteq> user_id u"
  shows "on_message_insert u new st =
           st\<lparr>conversations :=
               map (\<lambda>cv. if c_id cv = row_conversation_id new
                          then cv\<lparr>hasUnread := True, updated_at := row_created_at new\<rparr>
                          else cv)
                 (conversations st)\<rparr>
       \<and> map c_id (conversations (on_message_insert u new st)) = map c_id (conversations st)
       \<and> map lastMessageTime (conversations (on_message_insert u new st)) =
           map lastMessageTime (conversations st)
       \<and> (\<forall>cv \<in> set (conversations (on_message_insert u new st)).
            c_id cv = row_conversation_id new \<longrightarrow>
              hasUnread cv \<and> updated_at cv = row_created_at new)"
proof -
  let ?f = "\<lambda>cv. if c_id cv = row_conversation_id new
                          then cv\<lparr>hasUnread := True, updated_at := row_created_at new\<rparr>
                          else cv"
  have eq: "on_message_insert u new st = st\<lparr>conversations := map ?f (conversations st)\<rparr>"
    using assms by (simp add: on_message_insert_def)
  have cs: "conversations (on_message_insert u new st) = map ?f (conversations st)"
    by (simp add: eq)
  have ids: "map c_id (map ?f (conversations st)) = map c_id (conversations st)"
    by (induction "conversations st") (simp_all add: comp_def)
  have times: "map lastMessageTime (map ?f (conversations st)) = map lastMessageTime (conversations st)"
    by (induction "conversations st") (simp_all add: comp_def)
  have flags: "\<forall>cv \<in> set (map ?f (conversations st)).
            c_id cv = row_conversation_id new \<longrightarrow>
              hasUnread cv \<and> updated_at cv = row_created_at new"
    by (rule patch_map_flags)
  from eq ids times flags show ?thesis
    unfolding cs by (intro conjI)
qed

text \<open>
  Claim C8. With fewer than 2 selected members, or a group name that is empty or white
  space only, \<open>createGroupChat\<close> returns with the store untouched (no conversation row, no
  participant row), the component state unchanged and one alert as its only effect.
\<close>

theorem createGroupChat_rejects:
  assumes "length (selectedUsers st) < 2 \<or> (\<forall>c \<in> set (groupName st). is_white_space c)"
  shows "createGroupChat env u (s, st) =
           (s, st, [Alert (if length (selectedUsers st) < 2
                           then js ''Please select at least 2 users for a group chat''
                           else js ''Please enter a group name'')])"
proof (cases "length (selectedUsers st) < 2")
  case True
  then show ?thesis by (simp add: createGroupChat_def)
next
  case False
  with assms have "trim (groupName st) = []" by (simp add: trim_empty_iff)
  with False show ?thesis by (simp add: createGroupChat_def)
qed

text \<open>
  The property of C6 on a concrete sequence: a successful load of two rows stored out of
  order, followed by a failed load.
\<close>

theorem refresh_loads_sorted_distinct_witness:
  "sorted (map created_at (messages (refresh_loads ''c1''
      [(None, ex_store [ex_row ''m1'' ''c1'' ''u1'' (js ''a'') 9, ex_row ''m2'' ''c1'' ''u2'' (js ''b'') 4]),
       (Some (js ''offline''), ex_store [])] init_chat)))
   \<and> distinct (map msg_id (messages (refresh_loads ''c1''
      [(None, ex_store [ex_row ''m1'' ''c1'' ''u1'' (js ''a'') 9, ex_row ''m2'' ''c1'' ''u2'' (js ''b'') 4]),
       (Some (js ''offline''), ex_store [])] init_chat)))
   \<and> map msg_id (messages (refresh_loads ''c1''
      [(None, ex_store [ex_row ''m1'' ''c1'' ''u1'' (js ''a'') 9, ex_row ''m2'' ''c1'' ''u2'' (js ''b'') 4]),
       (Some (js ''offline''), ex_store [])] init_chat)) = [''m2'', ''m1'']"
proof -
  let ?loads = "[(None, ex_store [ex_row ''m1'' ''c1'' ''u1'' (js ''a'') 9, ex_row ''m2'' ''c1'' ''u2'' (js ''b'') 4]),
       (Some (js ''offline''), ex_store [])]"
  have h: "\<forall>(err, s) \<in> set ?loads. distinct (map row_id (tbl_messages s))"
    by (simp add: ex_store_def ex_row_def)
  have ids: "map msg_id (messages (refresh_loads ''c1'' ?loads init_chat)) = [''m2'', ''m1'']"
    by code_simp
  from refresh_loads_sorted_distinct [OF h, of "''c1''"] ids show ?thesis by blast
qed

text \<open>
  The property of C10 on the input "space, tab, line feed".
\<close>

theorem sendMessage_blank_noop_witness:
  "sendMessage_submit 7 7 ex_user ''c1'' (ex_chat [] [32, 9, 10]) = (ex_chat [] [32, 9, 10], None)
   \<and> sendMessage (ex_send None) ex_user ''c1'' (ex_store [], ex_chat [] [32, 9, 10]) =
       (ex_store [], ex_chat [] [32, 9, 10], [])"
proof -
  have h: "\<forall>c \<in> set (newMessage (ex_chat [] [32, 9, 10])). is_white_space c"
    by (simp add: ex_chat_def is_white_space_def)
  from sendMessage_blank_noop [OF h] show ?thesis by blast
qed

lemma messages_refresh_ok: "messages (refresh cid st (None, s)) = select_thread s cid"
  by (simp add: refresh_def respond_def loadMessages_def)

text \<open>
  The property of C2 on a send of " hi " into a conversation holding one message.
\<close>

theorem optimistic_send_outcomes_witness:
  "trim (newMessage (ex_chat [] (js '' hi ''))) = js ''hi''
   \<and> \<not> prefix ''temp-'' ''m2''
   \<and> msg_id (tempMessage 7 7 ex_user ''c1'' (js ''hi'')) \<notin> set (map msg_id (messages (refresh ''c1''
        (fst (sendMessage_settle None (tempMessage 7 7 ex_user ''c1'' (js ''hi'')) (ex_chat [] [])))
        (None, insert_message ''m2'' 8
           \<lparr>ins_conversation_id = ''c1'', ins_sender_id = user_id ex_user, ins_content = js ''hi'',
            ins_message_type = ''text''\<rparr>
           (ex_store [ex_row ''m1'' ''c1'' ''u2'' (js ''yo'') 5])))))"
proof -
  let ?st = "ex_chat [] (js '' hi '')"
  let ?s = "ex_store [ex_row ''m1'' ''c1'' ''u2'' (js ''yo'') 5]"
  have t: "trim (newMessage ?st) = js ''hi''"
    by (simp add: ex_chat_def trim_def js_def is_white_space_def)
  have h1: "trim (newMessage ?st) \<noteq> []" unfolding t by (simp add: js_def)
  have h2: "\<forall>r \<in> set (tbl_messages ?s). \<not> prefix ''temp-'' (row_id r)"
    by (simp add: ex_store_def ex_row_def)
  have h3: "\<not> prefix ''temp-'' ''m2''" by simp
  have h4: "''m2'' \<notin> set (map row_id (tbl_messages ?s))"
    by (simp add: ex_store_def ex_row_def)
  note w = optimistic_send_outcomes [OF h1 h2 h3 h4, of 7 7 ex_user "''c1''" "ex_chat [] []" 8,
      unfolded Let_def t]
  from t h3 w [THEN conjunct2, THEN conjunct1] show ?thesis by (intro conjI)
qed


text \<open>
  Claim C4 as stated fails when the store update fails: the conversation keeps its
  unread flag.
\<close>

theorem markConversationAsRead_failure_counterexample:
  "map hasUnread (conversations (snd (markConversationAsRead (Some (js ''offline'')) 50 ex_user ''c1''
      (ex_world None [], ex_clist [ex_conv ''c1'' True 5])))) = [True]"
  by (simp add: markConversationAsRead_def ex_user_def ex_clist_def ex_conv_def)

text \<open>
  The amended property of C4 on a list of two unread conversations.
\<close>

theorem markConversationAsRead_outcome_witness:
  "''c1'' \<noteq> [] \<and> user_id ex_user \<noteq> []
   \<and> markConversationAsRead (Some (js ''offline'')) 50 ex_user ''c1''
        (ex_world None [], ex_clist [ex_conv ''c1'' True 5, ex_conv ''c2'' True 3]) =
       (ex_world None [], ex_clist [ex_conv ''c1'' True 5, ex_conv ''c2'' True 3])
   \<and> map hasUnread (conversations (snd (markConversationAsRead None 50 ex_user ''c1''
        (ex_world None [], ex_clist [ex_conv ''c1'' True 5, ex_conv ''c2'' True 3])))) = [False, True]"
proof -
  have h1: "''c1'' \<noteq> []" by simp
  have h2: "user_id ex_user \<noteq> []" by (simp add: ex_user_def)
  note w = markConversationAsRead_outcome [OF h1 h2, of "js ''offline''" 50 "ex_world None []"
      "ex_clist [ex_conv ''c1'' True 5, ex_conv ''c2'' True 3]"]
  have "map hasUnread (conversations (snd (markConversationAsRead None 50 ex_user ''c1''
        (ex_world None [], ex_clist [ex_conv ''c1'' True 5, ex_conv ''c2'' True 3])))) = [False, True]"
    unfolding w [THEN conjunct2, THEN conjunct1]
    by (simp add: ex_clist_def ex_conv_def)
  with h1 h2 w [THEN conjunct1] show ?thesis by (intro conjI)
qed

text \<open>
  Claim C5 as stated fails: after the insert event for the second conversation of the
  list, that conversation is still second, and its \<open>lastMessageTime\<close> is unchanged.
\<close>

theorem on_message_insert_order_counterexample:
  "map c_id (conversations (on_message_insert ex_user (ex_row ''m9'' ''c1'' ''u2'' (js ''hi'') 20)
      (ex_clist [ex_conv ''c2'' False 10, ex_conv ''c1'' False 5]))) = [''c2'', ''c1'']
   \<and> map lastMessageTime (conversations (on_message_insert ex_user (ex_row ''m9'' ''c1'' ''u2'' (js ''hi'') 20)
      (ex_clist [ex_conv ''c2'' False 10, ex_conv ''c1'' False 5]))) = [10, 5]"
  by (simp add: on_message_insert_def ex_user_def ex_row_def ex_clist_def ex_conv_def)

text \<open>
  The amended property of C5 on a list of two conversations.
\<close>

theorem on_message_insert_patch_witness:
  "user_id ex_user \<noteq> []
   \<and> row_sender_id (ex_row ''m9'' ''c1'' ''u2'' (js ''hi'') 20) \<noteq> user_id ex_user
   \<and> map hasUnread (conversations (on_message_insert ex_user (ex_row ''m9'' ''c1'' ''u2'' (js ''hi'') 20)
        (ex_clist [ex_conv ''c2'' False 10, ex_conv ''c1'' False 5]))) = [False, True]
   \<and> map updated_at (conversations (on_message_insert ex_user (ex_row ''m9'' ''c1'' ''u2'' (js ''hi'') 20)
        (ex_clist [ex_conv ''c2'' False 10, ex_conv ''c1'' False 5]))) = [0, 20]"
proof -
  let ?new = "ex_row ''m9'' ''c1'' ''u2'' (js ''hi'') 20"
  let ?st = "ex_clist [ex_conv ''c2'' False 10, ex_conv ''c1'' False 5]"
  have h1: "user_id ex_user \<noteq> []" by (simp add: ex_user_def)
  have h2: "row_sender_id ?new \<noteq> user_id ex_user" by (simp add: ex_user_def ex_row_def)
  note w = on_message_insert_patch [OF h1 h2, of ?st, THEN conjunct1]
  have a: "map hasUnread (conversations (on_message_insert ex_user ?new ?st)) = [False, True]"
    unfolding w by (simp add: ex_clist_def ex_conv_def ex_row_def)
  have b: "map updated_at (conversations (on_message_insert ex_user ?new ?st)) = [0, 20]"
    unfolding w by (simp add: ex_clist_def ex_conv_def ex_row_def)
  from h1 h2 a b show ?thesis by (intro conjI)
qed

text \<open>
  The property of C8 on a blank name with two members, and on one member with a name.
\<close>

theorem createGroupChat_rejects_witness:
  "createGroupChat (ex_create ''c9'' None) ex_user
      (ex_world None [], (ex_clist [])\<lparr>selectedUsers := [''u2'', ''u3''], groupName := [32, 9]\<rparr>) =
     (ex_world None [], (ex_clist [])\<lparr>selectedUsers := [''u2'', ''u3''], groupName := [32, 9]\<rparr>,
      [Alert (js ''Please enter a group name'')])
   \<and> createGroupChat (ex_create ''c9'' None) ex_user
      (ex_world None [], (ex_clist [])\<lparr>selectedUsers := [''u2''], groupName := js ''team''\<rparr>) =
     (ex_world None [], (ex_clist [])\<lparr>selectedUsers := [''u2''], groupName := js ''team''\<rparr>,
      [Alert (js ''Please select at least 2 users for a group chat'')])"
proof -
  let ?a = "(ex_clist [])\<lparr>selectedUsers := [''u2'', ''u3''], groupName := [32, 9]\<rparr>"
  let ?b = "(ex_clist [])\<lparr>selectedUsers := [''u2''], groupName := js ''team''\<rparr>"
  have ha: "length (selectedUsers ?a) < 2 \<or> (\<forall>c \<in> set (groupName ?a). is_white_space c)"
    by (simp add: is_white_space_def)
  have hb: "length (selectedUsers ?b) < 2 \<or> (\<forall>c \<in> set (groupName ?b). is_white_space c)"
    by simp
  have la: "\<not> length (selectedUsers ?a) < 2" by simp
  have lb: "length (selectedUsers ?b) < 2" by simp
  from createGroupChat_rejects [OF ha, of "ex_create ''c9'' None" ex_user "ex_world None []"]
    createGroupChat_rejects [OF hb, of "ex_create ''c9'' None" ex_user "ex_world None []"]
  show ?thesis by (simp only: la lb if_True if_False simp_thms)
qed

lemma map_filter_filter_map_cong:
  assumes "\<And>p. P (g p) = P p" and "\<And>p. f (g p) = f p"
  shows "List.map_filter f (filter P (map g ps)) = List.map_filter f (filter P ps)"
proof (induction ps)
  case Nil
  show ?case by simp
next
  case (Cons p ps)
  show ?case
    by (cases "P p"; cases "f p") (simp_all add: assms List.map_filter_simps Cons.IH)
qed

lemma map_filter_append:
  "List.map_filter f (xs @ ys) = List.map_filter f xs @ List.map_filter f ys"
  by (simp add: List.map_filter_def)

lemma map_filter_cong_set:
  assumes "\<And>x. x \<in> set xs \<Longrightarrow> f x = g x"
  shows "List.map_filter f xs = List.map_filter g xs"
  using assms
proof (induction xs)
  case Nil
  show ?case by (simp add: List.map_filter_simps)
next
  case (Cons x xs)
  then have "List.map_filter f xs = List.map_filter g xs" and "f x = g x" by simp_all
  then show ?case by (simp add: List.map_filter_simps split: option.splits)
qed

lemma in_set_map_filter:
  "y \<in> set (List.map_filter f xs) \<longleftrightarrow> (\<exists>x \<in> set xs. f x = Some y)"
  by (induction xs) (auto simp: List.map_filter_simps split: option.splits)

lemma find_snoc:
  "find P (xs @ [y]) = (case find P xs of Some x \<Rightarrow> Some x | None \<Rightarrow> if P y then Some y else None)"
  by (induction xs) simp_all

lemma find_unique:
  assumes "n \<in> set xs" and "P n" and "\<forall>x \<in> set xs. P x \<longrightarrow> x = n"
  shows "find P xs = Some n"
proof (cases "find P xs")
  case None
  with assms(1,2) show ?thesis by (simp add: find_None_iff)
next
  case (Some x)
  then have "x \<in> set xs" "P x" by (auto simp: find_Some_iff in_set_conv_nth)
  with assms(3) Some show ?thesis by simp
qed

lemma find_in_set:
  assumes "find P xs = Some x"
  shows "x \<in> set xs" and "P x"
  using assms by (auto simp: find_Some_iff in_set_conv_nth)

lemma keys_bump: "fst ` set (bump k kvs) \<subseteq> insert k (fst ` set kvs)"
  by (induction k kvs rule: bump.induct) auto

lemma bump_fresh:
  "k \<notin> fst ` set kvs \<Longrightarrow> k \<notin> set object_prototype_keys \<Longrightarrow> bump k kvs = kvs @ [(k, Num 1)]"
  by (induction k kvs rule: bump.induct) (auto simp: object_prototype_keys_def)

lemma bump_last:
  "k \<notin> fst ` set kvs \<Longrightarrow> bump k (kvs @ [(k, Num n)]) = kvs @ [(k, Num (n + 1))]"
  by (induction k kvs rule: bump.induct) auto

lemma map_of_bump_other: "k' \<noteq> k \<Longrightarrow> map_of (bump k kvs) k' = map_of kvs k'"
  by (induction k kvs rule: bump.induct) auto

lemma map_of_bump_same:
  "map_of (bump k kvs) k =
     (case map_of kvs k of
        Some (Num n) \<Rightarrow> Some (Num (n + 1))
      | Some Str \<Rightarrow> Some Str
      | None \<Rightarrow> if k = ''__proto__'' then None
                else if k \<in> set object_prototype_keys then Some Str else Some (Num 1))"
  by (induction k kvs rule: bump.induct) (auto split: jsvalue.splits)

lemma keys_foldl_bump:
  "fst ` set (foldl (\<lambda>acc (cid, grp). if \<not> grp then bump cid acc else acc) acc rows)
     \<subseteq> fst ` set acc \<union> fst ` set rows"
proof (induction rows arbitrary: acc)
  case Nil
  show ?case by simp
next
  case (Cons r rows)
  obtain c g where r: "r = (c, g)" by (cases r)
  show ?case
  proof (cases g)
    case True
    with r Cons.IH [of acc] show ?thesis by auto
  next
    case False
    with r Cons.IH [of "bump c acc"] keys_bump [of c acc] show ?thesis by auto
  qed
qed

lemma keys_count_rows: "fst ` set (count_rows rows) \<subseteq> fst ` set rows"
  using keys_foldl_bump [of "[]" rows] by (simp add: count_rows_def)

lemma count_rows_new_pair:
  assumes "n \<notin> fst ` set rows" and "n \<notin> set object_prototype_keys"
  shows "count_rows (rows @ [(n, False), (n, False)]) = count_rows rows @ [(n, Num 2)]"
proof -
  from assms(1) keys_count_rows [of rows] have k: "n \<notin> fst ` set (count_rows rows)" by blast
  have "count_rows (rows @ [(n, False), (n, False)]) = bump n (bump n (count_rows rows))"
    by (simp add: count_rows_def)
  also have "\<dots> = bump n (count_rows rows @ [(n, Num 1)])"
    using k assms(2) by (simp add: bump_fresh)
  also have "\<dots> = count_rows rows @ [(n, Num 2)]"
    using k bump_last [of n "count_rows rows" 1] by simp
  finally show ?thesis .
qed

lemma set_object_keys: "set (object_keys kvs) = fst ` set kvs"
  by (auto simp: object_keys_def)

lemma map_of_snoc_fresh:
  assumes "n \<notin> fst ` set kvs"
  shows "map_of (kvs @ [(n, v)]) k = (if k = n then Some v else map_of kvs k)"
  using assms by (induction kvs) auto

lemma find_existing_in_rows:
  assumes "find_existing rows = Some c"
  shows "c \<in> fst ` set rows"
proof -
  from assms have "c \<in> set (object_keys (count_rows rows))"
    unfolding find_existing_def Let_def by (rule find_in_set(1))
  with keys_count_rows [of rows] show ?thesis by (auto simp: set_object_keys)
qed

lemma find_existing_new_pair:
  assumes "n \<notin> fst ` set rows" and "find_existing rows = None"
    and "n \<notin> set object_prototype_keys"
  shows "find_existing (rows @ [(n, False), (n, False)]) = Some n"
proof -
  let ?kvs = "count_rows rows"
  from assms(1) keys_count_rows [of rows] have k: "n \<notin> fst ` set ?kvs" by blast
  have none: "\<forall>x \<in> fst ` set ?kvs. map_of ?kvs x \<noteq> Some (Num 2)"
    using assms(2) unfolding find_existing_def Let_def
    by (simp add: find_None_iff set_object_keys)
  have "find (\<lambda>convId. map_of (?kvs @ [(n, Num 2)]) convId = Some (Num 2)) (object_keys (?kvs @ [(n, Num 2)])) = Some n"
  proof (rule find_unique)
    show "n \<in> set (object_keys (?kvs @ [(n, Num 2)]))" by (simp add: set_object_keys)
    show "map_of (?kvs @ [(n, Num 2)]) n = Some (Num 2)"
      by (simp add: map_of_snoc_fresh [OF k] del: map_of_append)
    show "\<forall>x \<in> set (object_keys (?kvs @ [(n, Num 2)])). map_of (?kvs @ [(n, Num 2)]) x = Some (Num 2) \<longrightarrow> x = n"
    proof (intro ballI impI)
      fix x
      assume x: "x \<in> set (object_keys (?kvs @ [(n, Num 2)]))"
        and two: "map_of (?kvs @ [(n, Num 2)]) x = Some (Num 2)"
      show "x = n"
      proof (rule ccontr)
        assume ne: "x \<noteq> n"
        with x have "x \<in> fst ` set ?kvs" by (auto simp: set_object_keys)
        moreover from two ne have "map_of ?kvs x = Some (Num 2)"
          by (simp add: map_of_snoc_fresh [OF k] del: map_of_append)
        ultimately show False using none by blast
      qed
    qed
  qed
  then show ?thesis
    by (simp add: find_existing_def count_rows_new_pair [OF assms(1,3)])
qed

lemma find_existing_Nil: "find_existing [] = None"
  by (simp add: find_existing_def count_rows_def object_keys_def)

lemma pair_rows_update:
  "select_pair_rows (update_last_read now c uid s) a b = select_pair_rows s a b"
  unfolding select_pair_rows_def update_last_read_def
  by (simp add: map_filter_filter_map_cong)

lemma mark_store_cases:
  "fst (markConversationAsRead err now u c (s, st)) = s
   \<or> fst (markConversationAsRead err now u c (s, st)) = update_last_read now c (user_id u) s"
  by (simp add: markConversationAsRead_def split: option.splits)

lemma pair_rows_mark:
  "select_pair_rows (fst (markConversationAsRead err now u c (s, st))) a b = select_pair_rows s a b"
  using mark_store_cases [of err now u c s st] by (auto simp: pair_rows_update)

lemma conversations_mark:
  "tbl_conversations (fst (markConversationAsRead err now u c (s, st))) = tbl_conversations s"
  using mark_store_cases [of err now u c s st] by (auto simp: update_last_read_def)

lemma participants_mark:
  "map (\<lambda>p. (part_conversation_id p, part_user_id p))
     (tbl_participants (fst (markConversationAsRead err now u c (s, st)))) =
   map (\<lambda>p. (part_conversation_id p, part_user_id p)) (tbl_participants s)"
proof -
  have "map (\<lambda>p. (part_conversation_id p, part_user_id p))
          (tbl_participants (update_last_read now c (user_id u) s)) =
        map (\<lambda>p. (part_conversation_id p, part_user_id p)) (tbl_participants s)"
    by (induction "tbl_participants s") (simp_all add: update_last_read_def comp_def)
  with mark_store_cases [of err now u c s st] show ?thesis by auto
qed

lemma pair_rows_keys:
  assumes "x \<in> fst ` set (select_pair_rows s a b)"
  shows "x \<in> set (map conv_id (tbl_conversations s))"
    and "x \<in> set (map part_conversation_id (tbl_participants s))"
proof -
  from assms obtain g where "(x, g) \<in> set (select_pair_rows s a b)" by auto
  then obtain p cv where p: "p \<in> set (tbl_participants s)"
    and f: "find (\<lambda>c. conv_id c = part_conversation_id p) (tbl_conversations s) = Some cv"
    and x: "x = part_conversation_id p"
    by (auto simp: select_pair_rows_def in_set_map_filter)
  from find_in_set [OF f] have "cv \<in> set (tbl_conversations s)" "conv_id cv = x"
    by (simp_all add: x)
  then show "x \<in> set (map conv_id (tbl_conversations s))" by force
  from p x show "x \<in> set (map part_conversation_id (tbl_participants s))" by auto
qed

lemma pair_rows_created:
  assumes fresh: "n \<notin> set (map conv_id (tbl_conversations s))"
      "n \<notin> set (map part_conversation_id (tbl_participants s))"
  shows "select_pair_rows
           (insert_participants
              [\<lparr>part_conversation_id = n, part_user_id = a, part_role = r1, part_last_read_at = t1\<rparr>,
               \<lparr>part_conversation_id = n, part_user_id = b, part_role = r2, part_last_read_at = t2\<rparr>]
              (insert_conversation n t False nm s)) a b =
         select_pair_rows s a b @ [(n, False), (n, False)]"
proof -
  let ?new = "\<lparr>conv_id = n, conv_name = nm, conv_is_group = False, conv_updated_at = t\<rparr>"
  let ?cs = "tbl_conversations s"
  let ?f = "\<lambda>cs p. map_option (\<lambda>c. (part_conversation_id p, conv_is_group c))
              (find (\<lambda>c. conv_id c = part_conversation_id p) cs)"
  have none: "find (\<lambda>c. conv_id c = n) ?cs = None"
    using fresh(1) by (auto simp: find_None_iff)
  have old: "?f (?cs @ [?new]) p = ?f ?cs p" if "p \<in> set (tbl_participants s)" for p
  proof -
    from that fresh(2) have "part_conversation_id p \<noteq> n" by auto
    then show ?thesis by (simp add: find_snoc split: option.splits)
  qed
  have olds: "List.map_filter (?f (?cs @ [?new]))
                (filter (\<lambda>p. part_user_id p = a \<or> part_user_id p = b) (tbl_participants s)) =
              List.map_filter (?f ?cs)
                (filter (\<lambda>p. part_user_id p = a \<or> part_user_id p = b) (tbl_participants s))"
    by (rule map_filter_cong_set) (simp add: old)
  have new: "find (\<lambda>c. conv_id c = n) (?cs @ [?new]) = Some ?new"
    by (simp add: find_snoc none)
  show ?thesis
    unfolding select_pair_rows_def insert_participants_def insert_conversation_def
    by (simp add: map_filter_append olds new List.map_filter_simps)
qed

lemma startDirectChat_reuse:
  assumes "lookup_error env = None"
    and "find_existing (select_pair_rows s (user_id u) other) = Some c" and "c \<noteq> []"
  shows "startDirectChat env u other (s, st) =
           (fst (markConversationAsRead (mark_error env) (env_now env) u c (s, st)),
            (snd (markConversationAsRead (mark_error env) (env_now env) u c (s, st)))
              \<lparr>showNewChatModal := False\<rparr>,
            [Select c])"
proof -
  from assms(2) have "select_pair_rows s (user_id u) other \<noteq> []"
    by (auto simp: find_existing_Nil)
  with assms show ?thesis
    by (simp add: startDirectChat_def handleSelectConversation_def respond_def Let_def
        case_prod_beta)
qed

lemma startDirectChat_create:
  assumes "lookup_error env = None" and "conv_error env = None" and "parts_error env = None"
    and "find_existing (select_pair_rows s (user_id u) other) = None"
  shows "startDirectChat env u other (s, st) =
           (let s2 = insert_participants
                       [\<lparr>part_conversation_id = new_conv_id env, part_user_id = user_id u,
                         part_role = None, part_last_read_at = Some (env_now env)\<rparr>,
                        \<lparr>part_conversation_id = new_conv_id env, part_user_id = other,
                         part_role = None, part_last_read_at = Some (env_now env)\<rparr>]
                       (insert_conversation (new_conv_id env) (env_now env) False None s);
                m = markConversationAsRead (mark_error env) (env_now env) u (new_conv_id env) (s2, st)
            in (fst m, (loadConversations (reload_env env) (fst m) u (snd m))\<lparr>showNewChatModal := False\<rparr>,
                [Select (new_conv_id env)]))"
  using assms
  by (simp add: startDirectChat_def handleSelectConversation_def respond_def Let_def
      case_prod_beta)

lemma startDirectChat_reuse_facts:
  assumes "lookup_error env = None"
    and "find_existing (select_pair_rows s (user_id u) other) = Some c" and "c \<noteq> []"
  shows "snd (snd (startDirectChat env u other (s, st))) = [Select c]"
    and "tbl_conversations (fst (startDirectChat env u other (s, st))) = tbl_conversations s"
    and "map (\<lambda>p. (part_conversation_id p, part_user_id p))
           (tbl_participants (fst (startDirectChat env u other (s, st)))) =
         map (\<lambda>p. (part_conversation_id p, part_user_id p)) (tbl_participants s)"
    and "select_pair_rows (fst (startDirectChat env u other (s, st))) a b = select_pair_rows s a b"
  by (simp_all add: startDirectChat_reuse [OF assms] conversations_mark participants_mark
      pair_rows_mark)

lemma pollTick_single_stale:
  assumes "data counted = Some [i]" and "lastMessageCount sy \<le> 1"
  shows "pollTick counted loaded (st, sy) = (st, sy\<lparr>lastMessageCount := 1\<rparr>)"
  using assms by (auto simp: pollTick_def Let_def)

lemma pollTick_funpow_stale:
  assumes "data counted = Some [i]" and "lastMessageCount sy \<le> 1"
  shows "fst ((pollTick counted loaded ^^ n) (st, sy)) = st
       \<and> lastMessageCount (snd ((pollTick counted loaded ^^ n) (st, sy))) \<le> 1"
proof (induction n)
  case 0
  with assms(2) show ?case by simp
next
  case (Suc n)
  obtain st' sy' where x: "(pollTick counted loaded ^^ n) (st, sy) = (st', sy')"
    by (cases "(pollTick counted loaded ^^ n) (st, sy)")
  with Suc have "st' = st" "lastMessageCount sy' \<le> 1" by simp_all
  then show ?case
    by (simp add: x pollTick_single_stale [OF assms(1)])
qed

text \<open>
  Claim C3, which the code does not meet. A thread is mounted on an empty conversation with the push
  channel disconnected, and another user's message is inserted. The first tick counts 1
  against a previous count of 0 and only records the count, and every later tick sees
  no growth: at every time \<open>t\<close> after the mount, far beyond one poll interval, the
  displayed list is still empty.
\<close>

theorem poll_misses_first_message:
  "messages (refresh ''c1'' init_chat (None, ex_store [])) = []
   \<and> map msg_id (select_thread (ex_store [ex_row ''m1'' ''c1'' ''u2'' (js ''hi'') 5]) ''c1'') = [''m1'']
   \<and> (\<forall>t. messages (fst (poll_until t
          (respond None (select_ids (ex_store [ex_row ''m1'' ''c1'' ''u2'' (js ''hi'') 5]) ''c1''))
          (respond None (select_thread (ex_store [ex_row ''m1'' ''c1'' ''u2'' (js ''hi'') 5]) ''c1''))
          (refresh ''c1'' init_chat (None, ex_store []), init_sync))) = [])"
proof -
  let ?s = "ex_store [ex_row ''m1'' ''c1'' ''u2'' (js ''hi'') 5]"
  let ?st = "refresh ''c1'' init_chat (None, ex_store [])"
  have empty: "messages ?st = []"
    by (simp add: messages_refresh_ok select_thread_def ex_store_def)
  have shown: "map msg_id (select_thread ?s ''c1'') = [''m1'']"
    by (simp add: msg_id_select_thread ex_store_def ex_row_def)
  have counted: "data (respond None (select_ids ?s ''c1'')) = Some [''m1'']"
    by (simp add: respond_def select_ids_def ex_store_def ex_row_def)
  have zero: "lastMessageCount init_sync \<le> 1" by (simp add: init_sync_def)
  have "messages (fst (poll_until t (respond None (select_ids ?s ''c1''))
          (respond None (select_thread ?s ''c1'')) (?st, init_sync))) = []" for t
    unfolding poll_until_def
    by (simp only: pollTick_funpow_stale [OF counted zero, THEN conjunct1] empty)
  with empty shown show ?thesis by (intro conjI allI)
qed

lemma count_rows_snoc:
  "count_rows (rows @ [(c, g)]) = (if g then count_rows rows else bump c (count_rows rows))"
  by (simp add: count_rows_def)

lemma count_rows_lookup:
  "map_of (count_rows rows) k =
     (if length (filter (\<lambda>r. r = (k, False)) rows) = 0 \<or> k = ''__proto__'' then None
      else if k \<in> set object_prototype_keys then Some Str
      else Some (Num (length (filter (\<lambda>r. r = (k, False)) rows))))"
proof (induction rows rule: rev_induct)
  case Nil
  show ?case by (simp add: count_rows_def)
next
  case (snoc r rows)
  obtain c g where r: "r = (c, g)" by (cases r)
  show ?case
  proof (cases "\<not> g \<and> c = k")
    case True
    then show ?thesis
      unfolding r count_rows_snoc
      by (simp add: map_of_bump_same snoc.IH)
  next
    case False
    then have "map_of (count_rows (rows @ [r])) k = map_of (count_rows rows) k"
      unfolding r count_rows_snoc by (auto simp: map_of_bump_other)
    moreover from False have "filter (\<lambda>r. r = (k, False)) (rows @ [r]) = filter (\<lambda>r. r = (k, False)) rows"
      unfolding r by auto
    ultimately show ?thesis by (simp only: snoc.IH)
  qed
qed

lemma find_existing_counted:
  assumes "find_existing rows = Some c"
  shows "c \<notin> set object_prototype_keys" and "length (filter (\<lambda>r. r = (c, False)) rows) = 2"
proof -
  from assms have two: "map_of (count_rows rows) c = Some (Num 2)"
    unfolding find_existing_def Let_def by (rule find_in_set(2))
  then show "c \<notin> set object_prototype_keys"
    unfolding count_rows_lookup by (simp split: if_splits)
  from two show "length (filter (\<lambda>r. r = (c, False)) rows) = 2"
    unfolding count_rows_lookup by (simp split: if_splits)
qed

lemma length_filter_map_filter:
  "length (filter (\<lambda>r. r = y) (List.map_filter f xs)) = length (filter (\<lambda>x. f x = Some y) xs)"
  by (induction xs) (simp_all add: List.map_filter_simps split: option.splits)

lemma pair_rows_count:
  "length (filter (\<lambda>r. r = (c, False)) (select_pair_rows s a b)) =
     (if map_option conv_is_group (find (\<lambda>cv. conv_id cv = c) (tbl_conversations s)) = Some False
      then length (filter (\<lambda>p. part_conversation_id p = c
                              \<and> (part_user_id p = a \<or> part_user_id p = b)) (tbl_participants s))
      else 0)"
proof -
  define G where
    "G \<longleftrightarrow> map_option conv_is_group (find (\<lambda>cv. conv_id cv = c) (tbl_conversations s)) = Some False"
  let ?f = "\<lambda>p. map_option (\<lambda>cv. (part_conversation_id p, conv_is_group cv))
              (find (\<lambda>cv. conv_id cv = part_conversation_id p) (tbl_conversations s))"
  have eq: "(?f p = Some (c, False)) = (part_conversation_id p = c \<and> G)" for p
    unfolding G_def
    by (cases "find (\<lambda>cv. conv_id cv = part_conversation_id p) (tbl_conversations s)") auto
  have "length (filter (\<lambda>r. r = (c, False)) (select_pair_rows s a b)) =
        length (filter (\<lambda>p. (part_conversation_id p = c \<and> G)
                            \<and> (part_user_id p = a \<or> part_user_id p = b)) (tbl_participants s))"
    unfolding select_pair_rows_def length_filter_map_filter filter_filter eq
    by (rule arg_cong [where f = length], rule filter_cong) auto
  also have "\<dots> = (if G
      then length (filter (\<lambda>p. part_conversation_id p = c
                              \<and> (part_user_id p = a \<or> part_user_id p = b)) (tbl_participants s))
      else 0)"
    by (cases G) simp_all
  finally show ?thesis unfolding G_def .
qed

lemma pair_count_members:
  assumes d: "distinct (map (\<lambda>p. (part_conversation_id p, part_user_id p)) ps)"
    and ne: "a \<noteq> b"
    and two: "length (filter (\<lambda>p. part_conversation_id p = c
                               \<and> (part_user_id p = a \<or> part_user_id p = b)) ps) = 2"
  shows "(c, a) \<in> set (map (\<lambda>p. (part_conversation_id p, part_user_id p)) ps)
       \<and> (c, b) \<in> set (map (\<lambda>p. (part_conversation_id p, part_user_id p)) ps)"
proof -
  let ?key = "\<lambda>p. (part_conversation_id p, part_user_id p)"
  let ?xs = "filter (\<lambda>p. part_conversation_id p = c \<and> (part_user_id p = a \<or> part_user_id p = b)) ps"
  from d have "distinct (map ?key ?xs)" by (rule distinct_map_filter)
  then have "card (set (map ?key ?xs)) = 2"
    using two by (simp add: distinct_card del: set_map)
  moreover have sub: "set (map ?key ?xs) \<subseteq> {(c, a), (c, b)}" by auto
  moreover have "card {(c, a), (c, b)} = 2" using ne by simp
  ultimately have "set (map ?key ?xs) = {(c, a), (c, b)}"
    by (intro card_subset_eq) simp_all
  moreover have "set (map ?key ?xs) \<subseteq> set (map ?key ps)" by auto
  ultimately show ?thesis by blast
qed

text \<open>
  Claim C7 as stated fails when the lookup of the second call fails: the error is only
  logged, the call goes on to create a conversation, and the two calls select different
  ids.
\<close>

theorem startDirectChat_lookup_failure_counterexample:
  "snd (snd (startDirectChat (ex_create ''c9'' None) ex_user ''u2''
          (ex_world (Some 1) [], ex_clist []))) = [Select ''c1'']
   \<and> snd (snd (startDirectChat ((ex_create ''c10'' None)\<lparr>lookup_error := Some (js ''offline'')\<rparr>)
          ex_user ''u2''
          (fst (startDirectChat (ex_create ''c9'' None) ex_user ''u2''
                  (ex_world (Some 1) [], ex_clist [])),
           fst (snd (startDirectChat (ex_create ''c9'' None) ex_user ''u2''
                  (ex_world (Some 1) [], ex_clist [])))))) = [Select ''c10'']"
proof -
  let ?s = "ex_world (Some 1) []"
  let ?e1 = "ex_create ''c9'' None"
  let ?e2 = "(ex_create ''c10'' None)\<lparr>lookup_error := Some (js ''offline'')\<rparr>"
  let ?r1 = "startDirectChat ?e1 ex_user ''u2'' (?s, ex_clist [])"
  have ok1: "lookup_error ?e1 = None" by (simp add: ex_create_def)
  have found: "find_existing (select_pair_rows ?s (user_id ex_user) ''u2'') = Some ''c1''"
    by code_simp
  have c1: "''c1'' \<noteq> []" by simp
  have e1: "snd (snd ?r1) = [Select ''c1'']"
    by (simp add: startDirectChat_reuse [OF ok1 found c1])
  have e2: "snd (snd (startDirectChat ?e2 ex_user ''u2'' (s', st'))) = [Select ''c10'']" for s' st'
    by (simp add: startDirectChat_def handleSelectConversation_def respond_def Let_def
        case_prod_beta ex_create_def)
  from e1 e2 show ?thesis by (intro conjI)
qed

text \<open>
  Claim C7, amended. Two calls of \<open>startDirectChat\<close> for the same target, one after the
  other, select the same conversation id, provided the store answers the lookup of both
  calls (and, in a first call that creates, the two inserts), assigns a new conversation
  a non-empty id that no conversation or participant row uses and that is no property
  name of \<open>Object.prototype\<close>, and holds no conversation with an empty id. The second call
  finds the id as that of a non-group conversation in which exactly 2 participant rows
  belong to the two users (one row of each, when the rows are unique per conversation
  and user and the target is another user) and reuses it: it inserts no conversation and
  no participant row. What the calls select when the lookup fails is left open.
\<close>

theorem startDirectChat_twice_same:
  assumes ok1: "lookup_error env1 = None" "conv_error env1 = None" "parts_error env1 = None"
    and ok2: "lookup_error env2 = None"
    and assigned: "new_conv_id env1 \<noteq> []"
      "new_conv_id env1 \<notin> set (map conv_id (tbl_conversations s))"
      "new_conv_id env1 \<notin> set (map part_conversation_id (tbl_participants s))"
      "new_conv_id env1 \<notin> set object_prototype_keys"
    and ids: "[] \<notin> set (map conv_id (tbl_conversations s))"
  shows "let r1 = startDirectChat env1 u other (s, st);
             r2 = startDirectChat env2 u other (fst r1, fst (snd r1))
         in \<exists>c. c \<noteq> []
              \<and> snd (snd r1) = [Select c]
              \<and> find_existing (select_pair_rows (fst r1) (user_id u) other) = Some c
              \<and> map_option conv_is_group
                    (find (\<lambda>cv. conv_id cv = c) (tbl_conversations (fst r1))) = Some False
              \<and> length (filter (\<lambda>p. part_conversation_id p = c
                                     \<and> (part_user_id p = user_id u \<or> part_user_id p = other))
                           (tbl_participants (fst r1))) = 2
              \<and> (distinct (map (\<lambda>p. (part_conversation_id p, part_user_id p))
                              (tbl_participants (fst r1))) \<and> user_id u \<noteq> other \<longrightarrow>
                    (c, user_id u) \<in> set (map (\<lambda>p. (part_conversation_id p, part_user_id p))
                                            (tbl_participants (fst r1)))
                  \<and> (c, other) \<in> set (map (\<lambda>p. (part_conversation_id p, part_user_id p))
                                         (tbl_participants (fst r1))))
              \<and> snd (snd r2) = [Select c]
              \<and> tbl_conversations (fst r2) = tbl_conversations (fst r1)
              \<and> map (\<lambda>p. (part_conversation_id p, part_user_id p)) (tbl_participants (fst r2)) =
                  map (\<lambda>p. (part_conversation_id p, part_user_id p)) (tbl_participants (fst r1))"
proof -
  define r1 where "r1 = startDirectChat env1 u other (s, st)"
  define r2 where "r2 = startDirectChat env2 u other (fst r1, fst (snd r1))"
  define rows0 where "rows0 = select_pair_rows s (user_id u) other"
  define n where "n = new_conv_id env1"
  let ?key = "\<lambda>p. (part_conversation_id p, part_user_id p)"
  have first: "\<exists>c. c \<noteq> [] \<and> snd (snd r1) = [Select c]
                \<and> find_existing (select_pair_rows (fst r1) (user_id u) other) = Some c"
  proof (cases "find_existing rows0")
    case (Some c)
    then have "c \<in> fst ` set rows0" by (rule find_existing_in_rows)
    then have "c \<in> set (map conv_id (tbl_conversations s))"
      unfolding rows0_def by (rule pair_rows_keys(1))
    with ids have c: "c \<noteq> []" by metis
    note f = startDirectChat_reuse_facts [OF ok1(1) Some [unfolded rows0_def] c]
    have "snd (snd r1) = [Select c]" unfolding r1_def by (rule f(1))
    moreover have "find_existing (select_pair_rows (fst r1) (user_id u) other) = Some c"
      unfolding r1_def f(4) using Some by (simp add: rows0_def)
    ultimately show ?thesis using c by blast
  next
    case None
    have fresh: "n \<notin> fst ` set rows0"
      using assigned(3) pair_rows_keys(2) [of n s "user_id u" other]
      unfolding n_def rows0_def by blast
    have proto: "n \<notin> set object_prototype_keys"
      unfolding n_def by (rule assigned(4))
    note cr = startDirectChat_create [OF ok1 None [unfolded rows0_def], of st]
    have e: "snd (snd r1) = [Select n]"
      unfolding r1_def n_def by (simp add: cr Let_def)
    have "select_pair_rows (fst r1) (user_id u) other = rows0 @ [(n, False), (n, False)]"
      unfolding r1_def n_def rows0_def
      by (simp add: cr Let_def pair_rows_mark pair_rows_created [OF assigned(2,3)])
    then have "find_existing (select_pair_rows (fst r1) (user_id u) other) = Some n"
      by (simp add: find_existing_new_pair [OF fresh None proto])
    with e assigned(1) show ?thesis unfolding n_def by blast
  qed
  then obtain c where c: "c \<noteq> []" "snd (snd r1) = [Select c]"
    "find_existing (select_pair_rows (fst r1) (user_id u) other) = Some c" by blast
  have cnt: "length (filter (\<lambda>r. r = (c, False)) (select_pair_rows (fst r1) (user_id u) other)) = 2"
    using c(3) by (rule find_existing_counted(2))
  have if_two: "G \<and> l = 2" if "(if G then l else 0) = (2::nat)" for G l
    using that by (cases G) simp_all
  note counted = if_two [OF cnt [unfolded pair_rows_count]]
  have grp: "map_option conv_is_group
               (find (\<lambda>cv. conv_id cv = c) (tbl_conversations (fst r1))) = Some False"
    by (rule counted [THEN conjunct1])
  have two: "length (filter (\<lambda>p. part_conversation_id p = c
                                \<and> (part_user_id p = user_id u \<or> part_user_id p = other))
                      (tbl_participants (fst r1))) = 2"
    by (rule counted [THEN conjunct2])
  have both: "distinct (map ?key (tbl_participants (fst r1))) \<and> user_id u \<noteq> other \<longrightarrow>
                (c, user_id u) \<in> set (map ?key (tbl_participants (fst r1)))
              \<and> (c, other) \<in> set (map ?key (tbl_participants (fst r1)))"
  proof (intro impI)
    assume "distinct (map ?key (tbl_participants (fst r1))) \<and> user_id u \<noteq> other"
    then have d: "distinct (map ?key (tbl_participants (fst r1)))" and ne: "user_id u \<noteq> other"
      by (rule conjunct1, rule conjunct2)
    from d ne two show "(c, user_id u) \<in> set (map ?key (tbl_participants (fst r1)))
              \<and> (c, other) \<in> set (map ?key (tbl_participants (fst r1)))"
      by (rule pair_count_members)
  qed
  note g = startDirectChat_reuse_facts [OF ok2 c(3) c(1), of "fst (snd r1)"]
  have sel: "snd (snd r2) = [Select c]" unfolding r2_def by (rule g(1))
  have convs: "tbl_conversations (fst r2) = tbl_conversations (fst r1)"
    unfolding r2_def by (rule g(2))
  have parts: "map ?key (tbl_participants (fst r2)) = map ?key (tbl_participants (fst r1))"
    unfolding r2_def by (rule g(3))
  have "c \<noteq> []
      \<and> snd (snd r1) = [Select c]
      \<and> find_existing (select_pair_rows (fst r1) (user_id u) other) = Some c
      \<and> map_option conv_is_group
            (find (\<lambda>cv. conv_id cv = c) (tbl_conversations (fst r1))) = Some False
      \<and> length (filter (\<lambda>p. part_conversation_id p = c
                             \<and> (part_user_id p = user_id u \<or> part_user_id p = other))
                   (tbl_participants (fst r1))) = 2
      \<and> (distinct (map ?key (tbl_participants (fst r1))) \<and> user_id u \<noteq> other \<longrightarrow>
            (c, user_id u) \<in> set (map ?key (tbl_participants (fst r1)))
          \<and> (c, other) \<in> set (map ?key (tbl_participants (fst r1))))
      \<and> snd (snd r2) = [Select c]
      \<and> tbl_conversations (fst r2) = tbl_conversations (fst r1)
      \<and> map ?key (tbl_participants (fst r2)) = map ?key (tbl_participants (fst r1))"
    using c grp two both sel convs parts by (intro conjI)
  then show ?thesis unfolding Let_def r1_def r2_def by (rule exI [where x = c])
qed

text \<open>
  The amended property of C7 on a first call that has to create the conversation.
\<close>

theorem startDirectChat_twice_same_witness:
  "new_conv_id (ex_create ''c9'' None) \<notin> set (map conv_id (tbl_conversations (ex_world (Some 1) [])))
   \<and> snd (snd (startDirectChat (ex_create ''c9'' None) ex_user ''u3''
          (ex_world (Some 1) [], ex_clist []))) = [Select ''c9'']
   \<and> snd (snd (startDirectChat (ex_create ''c10'' None) ex_user ''u3''
          (fst (startDirectChat (ex_create ''c9'' None) ex_user ''u3''
                  (ex_world (Some 1) [], ex_clist [])),
           fst (snd (startDirectChat (ex_create ''c9'' None) ex_user ''u3''
                  (ex_world (Some 1) [], ex_clist [])))))) = [Select ''c9'']"
proof -
  let ?s = "ex_world (Some 1) []"
  let ?e1 = "ex_create ''c9'' None"
  let ?e2 = "ex_create ''c10'' None"
  let ?r1 = "startDirectChat ?e1 ex_user ''u3'' (?s, ex_clist [])"
  have ok1: "lookup_error ?e1 = None" "conv_error ?e1 = None" "parts_error ?e1 = None"
    by (simp_all add: ex_create_def)
  have ok2: "lookup_error ?e2 = None" by (simp add: ex_create_def)
  have a1: "new_conv_id ?e1 \<noteq> []" by (simp add: ex_create_def)
  have a2: "new_conv_id ?e1 \<notin> set (map conv_id (tbl_conversations ?s))"
    by (simp add: ex_create_def ex_world_def ex_direct_def)
  have a3: "new_conv_id ?e1 \<notin> set (map part_conversation_id (tbl_participants ?s))"
    by (simp add: ex_create_def ex_world_def ex_member_def)
  have a4: "new_conv_id ?e1 \<notin> set object_prototype_keys"
    by (simp add: ex_create_def object_prototype_keys_def)
  have ids: "[] \<notin> set (map conv_id (tbl_conversations ?s))"
    by (simp add: ex_world_def ex_direct_def)
  have none: "find_existing (select_pair_rows ?s (user_id ex_user) ''u3'') = None"
    by code_simp
  have e1: "snd (snd ?r1) = [Select ''c9'']"
    by (simp add: startDirectChat_create [OF ok1 none] Let_def) (simp add: ex_create_def)
  from startDirectChat_twice_same [OF ok1 ok2 a1 a2 a3 a4 ids, of ex_user "''u3''" "ex_clist []"]
  obtain c where c: "snd (snd ?r1) = [Select c]"
    "snd (snd (startDirectChat ?e2 ex_user ''u3'' (fst ?r1, fst (snd ?r1)))) = [Select c]"
    unfolding Let_def by blast
  from c(1) e1 have "c = ''c9''" by simp
  with c(2) a2 e1 show ?thesis by (intro conjI) simp_all
qed

end
